theory Spec2Isabelle
  imports Complex_Main
begin

text \<open>
  The shape calculator of \<open>file.cpp\<close>: the class \<open>Shape\<close> with its two cached accessors,
  the classes \<open>Rectangle\<close>, \<open>Circle\<close> and \<open>Triangle\<close> with their formulas, and
  \<open>calculateShapeStats\<close>. Member functions that write a \<open>mutable\<close> cache return the
  object; nothing in the program throws, so no function has an error result.
\<close>

section \<open>The arithmetic of \<open>double\<close>\<close>

text \<open>
  The program computes with C++ \<open>double\<close>. The model is IEEE 754 binary64 with the
  default rounding (to nearest, ties to even) and every operation rounded once, which is
  what the usual targets give for \<open>+\<close>, \<open>-\<close>, \<open>*\<close>, \<open>/\<close> and \<open>std::sqrt\<close>.

  A finite value \<open>Finite s m e\<close> stands for \<open>(-1)^s * m * 2^e\<close>. The canonical form
  (\<open>valid\<close> below) has \<open>0 \<le> m < 2^53\<close> and \<open>-1074 \<le> e \<le> 971\<close>, with \<open>2^52 \<le> m\<close>
  (a normal number) or \<open>e = -1074\<close> (a subnormal number or a zero). The two zeros differ
  in the sign only. All NaNs are one value: the program never looks at a payload.
\<close>

datatype double = NaN | Infinity bool | Finite bool int int

fun valid :: "double \<Rightarrow> bool" where
  "valid NaN = True"
| "valid (Infinity s) = True"
| "valid (Finite s m e) =
     (0 \<le> m \<and> m < 2 ^ 53 \<and> - 1074 \<le> e \<and> e \<le> 971 \<and> (2 ^ 52 \<le> m \<or> e = - 1074))"

text \<open>The real number a finite double stands for (0 for the other two, by convention).\<close>

fun valof :: "double \<Rightarrow> real" where
  "valof NaN = 0"
| "valof (Infinity s) = 0"
| "valof (Finite s m e) = (if s then - 1 else 1) * real_of_int m * 2 powi e"

text \<open>The number of binary digits of a positive integer.\<close>

function bitlen :: "int \<Rightarrow> int" where
  "bitlen n = (if n \<le> 0 then 0 else 1 + bitlen (n div 2))"
  by pat_completeness auto
termination
  by (relation "measure nat") auto

declare bitlen.simps [simp del]

text \<open>\<open>rne m k\<close> is \<open>m / 2^k\<close> rounded to the nearest integer, a tie going to the even one.\<close>

definition rne :: "int \<Rightarrow> nat \<Rightarrow> int" where
  "rne m k =
     (let q = m div 2 ^ k; r = m mod 2 ^ k; h = 2 ^ (k - 1)
      in if h < r \<or> (r = h \<and> odd q) then q + 1 else q)"

text \<open>
  \<open>round_finite s m e\<close> rounds the exact value \<open>(-1)^s * m * 2^e\<close> (\<open>0 \<le> m\<close>) to a double:
  53 significant bits, fewer below the normal range (gradual underflow, down to a signed
  zero), and an infinity when the rounded value exceeds the largest finite double.
\<close>

definition round_finite :: "bool \<Rightarrow> int \<Rightarrow> int \<Rightarrow> double" where
  "round_finite s m e =
     (if m = 0 then Finite s 0 (- 1074)
      else
        let e' = max (e + bitlen m - 53) (- 1074) in
        if e' \<le> e then
          (if 971 < e' then Infinity s else Finite s (m * 2 ^ nat (e - e')) e')
        else
          let q = rne m (nat (e' - e)) in
          if q = 2 ^ 53 then
            (if 971 < e' + 1 then Infinity s else Finite s (2 ^ 52) (e' + 1))
          else if 971 < e' then Infinity s
          else Finite s q e')"

text \<open>
  \<open>round_ratio s p q e\<close> rounds the exact value \<open>(-1)^s * (p / q) * 2^e\<close> (\<open>0 < p\<close>,
  \<open>0 < q\<close>): the quotient is taken to 56 bits or more and the rest is kept as one sticky
  bit below them, which decides the rounding as the exact quotient would.
\<close>

definition round_ratio :: "bool \<Rightarrow> int \<Rightarrow> int \<Rightarrow> int \<Rightarrow> double" where
  "round_ratio s p q e =
     (let k = max 0 (56 + bitlen q - bitlen p);
          n = p * 2 ^ nat k;
          d = n div q;
          sticky = (if n mod q = 0 then 0 else 1)
      in round_finite s (2 * d + sticky) (e - k - 1))"

text \<open>The integer square root, two bits of the argument for each bit of the result.\<close>

function isqrt :: "int \<Rightarrow> int" where
  "isqrt n =
     (if n < 1 then 0
      else if n < 4 then 1
      else let r = 2 * isqrt (n div 4) in if (r + 1) * (r + 1) \<le> n then r + 1 else r)"
  by pat_completeness auto
termination
  by (relation "measure nat") auto

declare isqrt.simps [simp del]

text \<open>The signed integer \<open>(-1)^s * m * 2^k\<close>.\<close>

definition signed :: "bool \<Rightarrow> int \<Rightarrow> int \<Rightarrow> int" where
  "signed s m k = (if s then - 1 else 1) * m * 2 ^ nat k"

fun fneg :: "double \<Rightarrow> double" where
  "fneg NaN = NaN"
| "fneg (Infinity s) = Infinity (\<not> s)"
| "fneg (Finite s m e) = Finite (\<not> s) m e"

text \<open>
  Addition: the sum of two finite doubles is exact over the smaller exponent, then
  rounded. An exact zero sum is \<open>-0\<close> only when both operands are negative.
\<close>

fun fadd :: "double \<Rightarrow> double \<Rightarrow> double" where
  "fadd NaN _ = NaN"
| "fadd _ NaN = NaN"
| "fadd (Infinity s) (Infinity t) = (if s = t then Infinity s else NaN)"
| "fadd (Infinity s) (Finite t n f) = Infinity s"
| "fadd (Finite s m e) (Infinity t) = Infinity t"
| "fadd (Finite s m e) (Finite t n f) =
     (let x = min e f;
          k = signed s m (e - x) + signed t n (f - x)
      in if k = 0 then Finite (s \<and> t) 0 (- 1074) else round_finite (k < 0) \<bar>k\<bar> x)"

definition fsub :: "double \<Rightarrow> double \<Rightarrow> double" where
  "fsub a b = fadd a (fneg b)"

fun fmul :: "double \<Rightarrow> double \<Rightarrow> double" where
  "fmul NaN _ = NaN"
| "fmul _ NaN = NaN"
| "fmul (Infinity s) (Infinity t) = Infinity (s \<noteq> t)"
| "fmul (Infinity s) (Finite t n f) = (if n = 0 then NaN else Infinity (s \<noteq> t))"
| "fmul (Finite s m e) (Infinity t) = (if m = 0 then NaN else Infinity (s \<noteq> t))"
| "fmul (Finite s m e) (Finite t n f) = round_finite (s \<noteq> t) (m * n) (e + f)"

fun fdiv :: "double \<Rightarrow> double \<Rightarrow> double" where
  "fdiv NaN _ = NaN"
| "fdiv _ NaN = NaN"
| "fdiv (Infinity s) (Infinity t) = NaN"
| "fdiv (Infinity s) (Finite t n f) = Infinity (s \<noteq> t)"
| "fdiv (Finite s m e) (Infinity t) = Finite (s \<noteq> t) 0 (- 1074)"
| "fdiv (Finite s m e) (Finite t n f) =
     (if n = 0 then (if m = 0 then NaN else Infinity (s \<noteq> t))
      else if m = 0 then Finite (s \<noteq> t) 0 (- 1074)
      else round_ratio (s \<noteq> t) m n (e - f))"

text \<open>
  \<open>std::sqrt\<close>: a NaN for a negative operand (no exception is thrown), the operand itself
  for a zero of either sign and for \<open>+\<infinity>\<close>, the correctly rounded root otherwise.
\<close>

fun fsqrt :: "double \<Rightarrow> double" where
  "fsqrt NaN = NaN"
| "fsqrt (Infinity s) = (if s then NaN else Infinity False)"
| "fsqrt (Finite s m e) =
     (if m = 0 then Finite s 0 (- 1074)
      else if s then NaN
      else
        let k = 110 + e mod 2;
            n = m * 2 ^ nat k;
            r = isqrt n;
            sticky = (if r * r = n then 0 else 1)
        in round_finite False (2 * r + sticky) ((e - k) div 2 - 1))"

text \<open>The comparison \<open><\<close>: false whenever an operand is a NaN; the two zeros are equal.\<close>

fun flt :: "double \<Rightarrow> double \<Rightarrow> bool" where
  "flt NaN _ = False"
| "flt _ NaN = False"
| "flt (Infinity s) (Infinity t) = (s \<and> \<not> t)"
| "flt (Infinity s) (Finite t n f) = s"
| "flt (Finite s m e) (Infinity t) = (\<not> t)"
| "flt (Finite s m e) (Finite t n f) =
     (let x = min e f in signed s m (e - x) < signed t n (f - x))"

text \<open>
  A decimal literal \<open>n / 10^k\<close> of the source text, converted as the compiler does: to the
  nearest double.
\<close>

definition literal :: "int \<Rightarrow> nat \<Rightarrow> double" where
  "literal n k = (if n = 0 then Finite False 0 (- 1074) else round_ratio False n (10 ^ k) 0)"

section \<open>Constants\<close>

text \<open>\<open>Constants::PI\<close>, and the other literals of the source text.\<close>

definition PI :: double where
  "PI = literal 314159265358979323846 20"

definition PRECISION :: nat where
  "PRECISION = 2"

definition zero :: double where
  "zero = literal 0 0"

definition minus_one :: double where
  "minus_one = fneg (literal 10 1)"

definition two :: double where
  "two = literal 20 1"

definition half :: double where
  "half = literal 5 1"

section \<open>Shapes\<close>

text \<open>
  The class \<open>Shape\<close> holds the name and the two \<open>mutable\<close> cache members, each
  initialised to \<open>-1.0\<close>. The members of the three derived classes are the alternatives of
  \<open>variant\<close>:
  \<open>Rectangle width height\<close>, \<open>Circle radius radius_squared\<close> and
  \<open>Triangle side1 side2 side3 semi_perimeter\<close>. Virtual dispatch is the case
  distinction on the alternative.
\<close>

datatype variant =
    Rectangle double double
  | Circle double double
  | Triangle double double double double

record shape =
  name :: string
  cached_area :: double
  cached_perimeter :: double
  members :: variant

definition Shape :: "string \<Rightarrow> variant \<Rightarrow> shape" where
  "Shape shapeName v =
     \<lparr>name = shapeName, cached_area = minus_one, cached_perimeter = minus_one, members = v\<rparr>"

text \<open>The three constructors. None validates its arguments and none can throw.\<close>

definition new_Rectangle :: "double \<Rightarrow> double \<Rightarrow> shape" where
  "new_Rectangle w h = Shape ''Rectangle'' (Rectangle w h)"

definition new_Circle :: "double \<Rightarrow> shape" where
  "new_Circle r = Shape ''Circle'' (Circle r (fmul r r))"

definition new_Triangle :: "double \<Rightarrow> double \<Rightarrow> double \<Rightarrow> shape" where
  "new_Triangle s1 s2 s3 =
     Shape ''Triangle'' (Triangle s1 s2 s3 (fmul (fadd (fadd s1 s2) s3) half))"

text \<open>The virtual functions \<open>calculateArea\<close> and \<open>calculatePerimeter\<close>.\<close>

fun variant_area :: "variant \<Rightarrow> double" where
  "variant_area (Rectangle width height) = fmul width height"
| "variant_area (Circle radius radius_squared) = fmul PI radius_squared"
| "variant_area (Triangle side1 side2 side3 semi_perimeter) =
     (let term = fmul (fmul (fmul semi_perimeter (fsub semi_perimeter side1))
                            (fsub semi_perimeter side2))
                      (fsub semi_perimeter side3)
      in fsqrt term)"

fun variant_perimeter :: "variant \<Rightarrow> double" where
  "variant_perimeter (Rectangle width height) = fmul two (fadd width height)"
| "variant_perimeter (Circle radius radius_squared) = fmul (fmul two PI) radius"
| "variant_perimeter (Triangle side1 side2 side3 semi_perimeter) = fmul two semi_perimeter"

definition calculateArea :: "shape \<Rightarrow> double" where
  "calculateArea s = variant_area (members s)"

definition calculatePerimeter :: "shape \<Rightarrow> double" where
  "calculatePerimeter s = variant_perimeter (members s)"

definition getName :: "shape \<Rightarrow> string" where
  "getName s = name s"

subsection \<open>The state around an object\<close>

text \<open>
  What a member function can touch besides the object itself: the stream \<open>cout\<close>, and a log
  of the calls of the two virtual formulas, in the order they are made. The log is the
  call counter a test would hang on the formulas; the program never reads it.

  The stream is a list of the items written. A number is kept as the double that was
  written: its rendering (\<open>fixed\<close>, \<open>setprecision(PRECISION)\<close>) is not modelled.
\<close>

datatype formula = CalculateArea | CalculatePerimeter

datatype item = Text string | Number double

record world =
  cout :: "item list"
  calls :: "formula list"

definition emit :: "item list \<Rightarrow> world \<Rightarrow> world" where
  "emit xs w = w\<lparr>cout := cout w @ xs\<rparr>"

definition called :: "formula \<Rightarrow> world \<Rightarrow> world" where
  "called f w = w\<lparr>calls := calls w @ [f]\<rparr>"

subsection \<open>The cached accessors\<close>

text \<open>
  \<open>getArea\<close> and \<open>getPerimeter\<close> return the value, the object (the cache member may have
  been written through \<open>mutable\<close>) and the world.
\<close>

definition getArea :: "shape \<Rightarrow> world \<Rightarrow> double \<times> shape \<times> world" where
  "getArea s w =
     (if flt (cached_area s) zero then
        let s' = s\<lparr>cached_area := calculateArea s\<rparr>
        in (cached_area s', s', called CalculateArea w)
      else (cached_area s, s, w))"

definition getPerimeter :: "shape \<Rightarrow> world \<Rightarrow> double \<times> shape \<times> world" where
  "getPerimeter s w =
     (if flt (cached_perimeter s) zero then
        let s' = s\<lparr>cached_perimeter := calculatePerimeter s\<rparr>
        in (cached_perimeter s', s', called CalculatePerimeter w)
      else (cached_perimeter s, s, w))"

subsection \<open>displayInfo and processShape\<close>

definition nl :: char where
  "nl = CHR 0x0A"

definition rule_line :: string where
  "rule_line = nl # ''------------------------'' @ [nl]"

text \<open>
  The text between the name and the area, and the label of the perimeter, are what the
  three overrides of \<open>displayInfo\<close> differ in.
\<close>

fun dimensions :: "variant \<Rightarrow> item list" where
  "dimensions (Rectangle width height) =
     [Text (nl # ''Dimensions: ''), Number width, Text '' x '', Number height]"
| "dimensions (Circle radius radius_squared) =
     [Text (nl # ''Radius: ''), Number radius]"
| "dimensions (Triangle side1 side2 side3 semi_perimeter) =
     [Text (nl # ''Sides: ''), Number side1, Text '', '', Number side2, Text '', '',
      Number side3]"

fun perimeter_label :: "variant \<Rightarrow> string" where
  "perimeter_label (Rectangle width height) = nl # ''Perimeter: ''"
| "perimeter_label (Circle radius radius_squared) = nl # ''Circumference: ''"
| "perimeter_label (Triangle side1 side2 side3 semi_perimeter) = nl # ''Perimeter: ''"

text \<open>
  In a chain of \<open><<\<close> each operand is evaluated once everything to its left has been
  written (the order C++17 fixes; the source needs C++17 for \<open>string_view\<close>). So the
  label of the area is on the stream when \<open>getArea\<close> runs, and \<open>getArea\<close> runs before
  \<open>getPerimeter\<close>.
\<close>

definition displayInfo :: "shape \<Rightarrow> world \<Rightarrow> shape \<times> world" where
  "displayInfo s w =
     (let w1 = emit ([Text ''Shape: '', Text (name s)] @ dimensions (members s) @
                     [Text (nl # ''Area: '')]) w;
          (a, s2, w2) = getArea s w1;
          w3 = emit [Number a, Text (perimeter_label (members s))] w2;
          (p, s4, w4) = getPerimeter s2 w3;
          w5 = emit [Number p, Text rule_line] w4
      in (s4, w5))"

definition processShape :: "shape \<Rightarrow> world \<Rightarrow> shape \<times> world" where
  "processShape s w =
     displayInfo s (emit [Text ''Processing '', Text (getName s), Text ('':'' @ [nl])] w)"

subsection \<open>Aggregate statistics\<close>

text \<open>
  \<open>count\<close> is a \<open>size_t\<close> that only ever receives \<open>shapes.size()\<close>; no arithmetic is
  done on it, so it is a natural number here.
\<close>

record ShapeStats =
  total_area :: double
  total_perimeter :: double
  count :: nat

definition ShapeStats_init :: ShapeStats where
  "ShapeStats_init = \<lparr>total_area = zero, total_perimeter = zero, count = 0\<rparr>"

text \<open>The range-based \<open>for\<close> of \<open>calculateShapeStats\<close>, the vector handed back with its caches.\<close>

fun stats_loop ::
  "shape list \<Rightarrow> ShapeStats \<Rightarrow> world \<Rightarrow> ShapeStats \<times> shape list \<times> world" where
  "stats_loop [] stats w = (stats, [], w)"
| "stats_loop (s # shapes) stats w =
     (let (a, s1, w1) = getArea s w;
          stats1 = stats\<lparr>total_area := fadd (total_area stats) a\<rparr>;
          (p, s2, w2) = getPerimeter s1 w1;
          stats2 = stats1\<lparr>total_perimeter := fadd (total_perimeter stats1) p\<rparr>;
          (stats3, shapes', w3) = stats_loop shapes stats2 w2
      in (stats3, s2 # shapes', w3))"

definition calculateShapeStats ::
  "shape list \<Rightarrow> world \<Rightarrow> ShapeStats \<times> shape list \<times> world" where
  "calculateShapeStats shapes w =
     stats_loop shapes (ShapeStats_init\<lparr>count := length shapes\<rparr>) w"

subsection \<open>Clients\<close>

text \<open>
  A client holds one shape and calls its public member functions in any order. \<open>ctor\<close>
  names the constructor call that made the shape.
\<close>

datatype ctor =
    NewRectangle double double
  | NewCircle double
  | NewTriangle double double double

fun construct :: "ctor \<Rightarrow> shape" where
  "construct (NewRectangle w h) = new_Rectangle w h"
| "construct (NewCircle r) = new_Circle r"
| "construct (NewTriangle s1 s2 s3) = new_Triangle s1 s2 s3"

datatype request = GetArea | GetPerimeter | DisplayInfo | ProcessShape | GetName

fun invoke :: "request \<Rightarrow> shape \<Rightarrow> world \<Rightarrow> shape \<times> world" where
  "invoke GetArea s w = snd (getArea s w)"
| "invoke GetPerimeter s w = snd (getPerimeter s w)"
| "invoke DisplayInfo s w = displayInfo s w"
| "invoke ProcessShape s w = processShape s w"
| "invoke GetName s w = (s, w)"

fun run :: "request list \<Rightarrow> shape \<Rightarrow> world \<Rightarrow> shape \<times> world" where
  "run [] s w = (s, w)"
| "run (r # rs) s w = (let (s', w') = invoke r s w in run rs s' w')"

definition world_init :: world where
  "world_init = \<lparr>cout = [], calls = []\<rparr>"

text \<open>The five shapes that \<open>main\<close> puts into its vector, written as the literals there.\<close>

definition main_shapes :: "shape list" where
  "main_shapes =
     [new_Rectangle (literal 50 1) (literal 30 1),
      new_Circle (literal 40 1),
      new_Triangle (literal 30 1) (literal 40 1) (literal 50 1),
      new_Rectangle (literal 25 1) (literal 60 1),
      new_Circle (literal 25 1)]"

text \<open>The requests that call \<open>getArea\<close>, and those that call \<open>getPerimeter\<close>.\<close>

fun uses_area :: "request \<Rightarrow> bool" where
  "uses_area GetArea = True"
| "uses_area DisplayInfo = True"
| "uses_area ProcessShape = True"
| "uses_area GetPerimeter = False"
| "uses_area GetName = False"

fun uses_perimeter :: "request \<Rightarrow> bool" where
  "uses_perimeter GetPerimeter = True"
| "uses_perimeter DisplayInfo = True"
| "uses_perimeter ProcessShape = True"
| "uses_perimeter GetArea = False"
| "uses_perimeter GetName = False"

text \<open>An example: \<open>Circle(4.0)\<close>, and what one \<open>displayInfo\<close> makes of it.\<close>

definition demo_ctor :: ctor where
  "demo_ctor = NewCircle (literal 40 1)"

definition demo_shape :: shape where
  "demo_shape = fst (run [DisplayInfo] (construct demo_ctor) world_init)"

definition demo_world :: world where
  "demo_world = snd (run [DisplayInfo] (construct demo_ctor) world_init)"

definition demo_requests :: "request list" where
  "demo_requests = [GetArea, GetPerimeter, DisplayInfo]"

text \<open>\<open>Triangle(1, 1, 10)\<close>, whose sides are not those of a triangle.\<close>

definition degenerate :: ctor where
  "degenerate = NewTriangle (literal 10 1) (literal 10 1) (literal 100 1)"

subsection \<open>The formulas of the triangle as the specification words them\<close>

text \<open>
  The specification gives the semi-perimeter as \<open>(a + b + c) / 2\<close>, a division, and the
  area as \<open>sqrt(s * (s - a) * (s - b) * (s - c))\<close>. These two definitions follow its
  words; they are compared with the constructor and with \<open>calculateArea\<close> below.
\<close>

definition semi_perimeter_spec :: "double \<Rightarrow> double \<Rightarrow> double \<Rightarrow> double" where
  "semi_perimeter_spec a b c = fdiv (fadd (fadd a b) c) two"

definition heron_spec :: "double \<Rightarrow> double \<Rightarrow> double \<Rightarrow> double \<Rightarrow> double" where
  "heron_spec s a b c = fsqrt (fmul (fmul (fmul s (fsub s a)) (fsub s b)) (fsub s c))"

subsection \<open>Predicates for the proofs\<close>

text \<open>
  The state of one cache against the log: no call of the accessor yet (the cache holds
  \<open>-1.0\<close> and the log has its \<open>n\<close> entries of the formula), or the value stored and
  one more entry.
\<close>

definition area_unset :: "shape \<Rightarrow> nat \<Rightarrow> shape \<Rightarrow> world \<Rightarrow> bool" where
  "area_unset s0 n t u \<longleftrightarrow>
     calculateArea t = calculateArea s0 \<and> cached_area t = minus_one \<and>
     count_list (calls u) CalculateArea = n"

definition area_set :: "shape \<Rightarrow> nat \<Rightarrow> shape \<Rightarrow> world \<Rightarrow> bool" where
  "area_set s0 n t u \<longleftrightarrow>
     calculateArea t = calculateArea s0 \<and> cached_area t = calculateArea s0 \<and>
     count_list (calls u) CalculateArea = Suc n"

definition perimeter_unset :: "shape \<Rightarrow> nat \<Rightarrow> shape \<Rightarrow> world \<Rightarrow> bool" where
  "perimeter_unset s0 n t u \<longleftrightarrow>
     calculatePerimeter t = calculatePerimeter s0 \<and> cached_perimeter t = minus_one \<and>
     count_list (calls u) CalculatePerimeter = n"

definition perimeter_set :: "shape \<Rightarrow> nat \<Rightarrow> shape \<Rightarrow> world \<Rightarrow> bool" where
  "perimeter_set s0 n t u \<longleftrightarrow>
     calculatePerimeter t = calculatePerimeter s0 \<and> cached_perimeter t = calculatePerimeter s0 \<and>
     count_list (calls u) CalculatePerimeter = Suc n"

section \<open>The literals as doubles\<close>

lemma PI_eq: "PI = Finite False 7074237752028440 (- 51)"
  unfolding PI_def by code_simp

lemma zero_eq: "zero = Finite False 0 (- 1074)"
  unfolding zero_def by code_simp

lemma minus_one_eq: "minus_one = Finite True 4503599627370496 (- 52)"
  unfolding minus_one_def by code_simp

lemma two_eq: "two = Finite False 4503599627370496 (- 51)"
  unfolding two_def by code_simp

lemma half_eq: "half = Finite False 4503599627370496 (- 53)"
  unfolding half_def by code_simp

lemma flt_minus_one_zero: "flt minus_one zero"
  by code_simp

lemma valof_PI: "valof PI = 7074237752028440 / 2 ^ 51"
  by (simp add: PI_eq power_int_minus field_simps)

section \<open>Facts about the arithmetic\<close>

lemma bitlen_nonpos [simp]: "n \<le> 0 \<Longrightarrow> bitlen n = 0"
  by (simp add: bitlen.simps)

lemma bitlen_pos: "0 < n \<Longrightarrow> bitlen n = 1 + bitlen (n div 2)"
  by (subst bitlen.simps) simp

lemma bitlen_ge0: "0 \<le> bitlen n"
  by (induction n rule: bitlen.induct) (subst bitlen.simps, simp)

lemma bitlen_gt0: "0 < n \<Longrightarrow> 0 < bitlen n"
  using bitlen_ge0 [of "n div 2"] by (simp add: bitlen_pos)

lemma bitlen_bounds:
  "0 < n \<Longrightarrow> 2 ^ nat (bitlen n - 1) \<le> n \<and> n < 2 ^ nat (bitlen n)"
proof (induction n rule: bitlen.induct)
  case (1 n)
  show ?case
  proof (cases "n div 2 = 0")
    case True
    with "1.prems" have "n = 1" by presburger
    then show ?thesis by (simp add: bitlen_pos)
  next
    case False
    with "1.prems" have pos: "0 < n div 2" by presburger
    from "1.IH" [OF _ pos] "1.prems"
    have IH: "2 ^ nat (bitlen (n div 2) - 1) \<le> n div 2" "n div 2 < 2 ^ nat (bitlen (n div 2))"
      by simp_all
    have b: "bitlen n = 1 + bitlen (n div 2)"
      using "1.prems" by (rule bitlen_pos)
    have g: "0 < bitlen (n div 2)"
      using pos by (rule bitlen_gt0)
    then have e1: "nat (bitlen n - 1) = Suc (nat (bitlen (n div 2) - 1))"
      and e2: "nat (bitlen n) = Suc (nat (bitlen (n div 2)))"
      unfolding b by simp_all
    have "2 * 2 ^ nat (bitlen (n div 2) - 1) \<le> 2 * (n div 2)"
      using IH(1) by simp
    also have "\<dots> \<le> n" by presburger
    finally have lo: "2 ^ nat (bitlen n - 1) \<le> n"
      unfolding e1 by simp
    have "n div 2 + 1 \<le> 2 ^ nat (bitlen (n div 2))"
      using IH(2) by simp
    then have "2 * (n div 2) + 2 \<le> 2 * 2 ^ nat (bitlen (n div 2))"
      by simp
    moreover have "n < 2 * (n div 2) + 2" by presburger
    ultimately have hi: "n < 2 ^ nat (bitlen n)"
      unfolding e2 by simp
    from lo hi show ?thesis ..
  qed
qed

lemma bitlen_double: "0 < n \<Longrightarrow> bitlen (2 * n) = 1 + bitlen n"
  by (subst bitlen.simps) simp

lemma bitlen_shift: "0 < n \<Longrightarrow> bitlen (n * 2 ^ j) = bitlen n + int j"
proof (induction j)
  case 0
  then show ?case by simp
next
  case (Suc j)
  have pos: "0 < n * 2 ^ j" using Suc.prems by simp
  have "bitlen (n * 2 ^ Suc j) = bitlen (2 * (n * 2 ^ j))"
    by (simp add: mult.assoc mult.left_commute)
  also have "\<dots> = 1 + bitlen (n * 2 ^ j)"
    using pos by (rule bitlen_double)
  finally show ?case using Suc by simp
qed

lemma rne_ge0: "0 \<le> m \<Longrightarrow> 0 \<le> rne m k"
  by (simp add: rne_def Let_def pos_imp_zdiv_nonneg_iff)

lemma rne_bounds: "m div 2 ^ k \<le> rne m k \<and> rne m k \<le> m div 2 ^ k + 1"
  by (simp add: rne_def Let_def)

lemma div_ge: "0 < b \<Longrightarrow> a * b \<le> m \<Longrightarrow> a \<le> m div (b::int)"
  using zdiv_mono1 by fastforce

lemma div_lt:
  assumes "0 < b" and "m < a * b"
  shows "m div b < (a::int)"
proof (rule ccontr)
  assume "\<not> m div b < a"
  then have "a * b \<le> (m div b) * b"
    using assms(1) by (simp add: mult_right_mono)
  moreover have "(m div b) * b \<le> m"
    using pos_mod_sign [OF assms(1), of m] div_mult_mod_eq [of m b] by linarith
  ultimately show False using assms(2) by simp
qed

lemma pow2_le: "a \<le> b \<Longrightarrow> (2::int) ^ a \<le> 2 ^ b"
  by (rule power_increasing) simp_all

lemma valid_round_finite:
  assumes "0 \<le> m"
  shows "valid (round_finite s m e)"
proof (cases "m = 0")
  case True
  then show ?thesis by (simp add: round_finite_def)
next
  case False
  with assms have pos: "0 < m" by simp
  define L where "L = bitlen m"
  define e' where "e' = max (e + L - 53) (- 1074)"
  have L: "0 < L" unfolding L_def using pos by (rule bitlen_gt0)
  have lo: "2 ^ nat (L - 1) \<le> m" and hi: "m < 2 ^ nat L"
    unfolding L_def using bitlen_bounds [OF pos] by simp_all
  have e'1: "- 1074 \<le> e'" and e'2: "e + L - 53 \<le> e'"
    by (simp_all add: e'_def)
  have e'3: "e' = - 1074 \<or> e' = e + L - 53"
    by (auto simp: e'_def max_def)
  have r0: "round_finite s m e =
      (if e' \<le> e then
         (if 971 < e' then Infinity s else Finite s (m * 2 ^ nat (e - e')) e')
       else if rne m (nat (e' - e)) = 2 ^ 53 then
         (if 971 < e' + 1 then Infinity s else Finite s (2 ^ 52) (e' + 1))
       else if 971 < e' then Infinity s
       else Finite s (rne m (nat (e' - e))) e')"
    unfolding round_finite_def e'_def L_def Let_def using False by simp
  show ?thesis
  proof (cases "e' \<le> e")
    case True
    define d where "d = nat (e - e')"
    have d: "int d = e - e'" using True by (simp add: d_def)
    have r: "round_finite s m e = (if 971 < e' then Infinity s else Finite s (m * 2 ^ d) e')"
      unfolding r0 d_def using True by simp
    have "nat L + d \<le> 53" using e'2 d L by linarith
    then have "(2::int) ^ (nat L + d) \<le> 2 ^ 53" by (rule pow2_le)
    moreover have "m * 2 ^ d < 2 ^ nat L * 2 ^ d" using hi by simp
    moreover have "(2::int) ^ nat L * 2 ^ d = 2 ^ (nat L + d)" by (simp add: power_add)
    ultimately have up: "m * 2 ^ d < 2 ^ 53" by linarith
    have can: "2 ^ 52 \<le> m * 2 ^ d" if "e' \<noteq> - 1074"
    proof -
      from that e'3 have "e' = e + L - 53" by simp
      then have "nat (L - 1) + d = 52" using d L by linarith
      then have "(2::int) ^ 52 = 2 ^ nat (L - 1) * 2 ^ d" by (simp only: power_add [symmetric])
      also have "\<dots> \<le> m * 2 ^ d" using lo by simp
      finally show ?thesis .
    qed
    show ?thesis
      unfolding r using up can e'1 pos by auto
  next
    case False
    define k where "k = nat (e' - e)"
    have k: "int k = e' - e" "0 < k" using False by (simp_all add: k_def)
    define q where "q = rne m k"
    have r: "round_finite s m e =
        (if q = 2 ^ 53 then (if 971 < e' + 1 then Infinity s else Finite s (2 ^ 52) (e' + 1))
         else if 971 < e' then Infinity s else Finite s q e')"
      unfolding r0 k_def q_def using False by simp
    have "nat L \<le> 53 + k"
    proof -
      from e'3 False e'2 k(1) show ?thesis by linarith
    qed
    then have "(2::int) ^ nat L \<le> 2 ^ (53 + k)" by (rule pow2_le)
    moreover have "(2::int) ^ (53 + k) = 2 ^ 53 * 2 ^ k" by (rule power_add)
    ultimately have "m < 2 ^ 53 * 2 ^ k" using hi by linarith
    then have "m div 2 ^ k < 2 ^ 53" by (intro div_lt) simp_all
    then have up: "q \<le> 2 ^ 53"
      using rne_bounds [of m k] by (simp add: q_def)
    have q0: "0 \<le> q" unfolding q_def using assms by (rule rne_ge0)
    have can: "2 ^ 52 \<le> q" if "e' \<noteq> - 1074"
    proof -
      from that e'3 have "e' = e + L - 53" by simp
      then have "nat (L - 1) = 52 + k" using k L by linarith
      then have "(2::int) ^ nat (L - 1) = 2 ^ 52 * 2 ^ k" by (simp only: power_add)
      then have "(2::int) ^ 52 * 2 ^ k \<le> m" using lo by linarith
      then have "2 ^ 52 \<le> m div 2 ^ k" by (intro div_ge) simp_all
      then show ?thesis using rne_bounds [of m k] by (simp add: q_def)
    qed
    show ?thesis
      unfolding r using up can e'1 q0 by auto
  qed
qed


lemma valid_fadd: "valid (fadd a b)"
proof (cases a)
  case (Finite s m e)
  note a = this
  show ?thesis
  proof (cases b)
    case (Finite t n f)
    show ?thesis
      unfolding a Finite by (simp add: Let_def valid_round_finite)
  qed (simp_all add: a)
qed (cases b; simp)+

lemma valid_fsub: "valid (fsub a b)"
  by (simp add: fsub_def valid_fadd)

lemma valid_fmul:
  assumes "valid a" and "valid b"
  shows "valid (fmul a b)"
proof (cases a)
  case (Finite s m e)
  note a = this
  show ?thesis
  proof (cases b)
    case (Finite t n f)
    have "0 \<le> m * n" using assms unfolding a Finite by simp
    then show ?thesis
      unfolding a Finite by (simp add: valid_round_finite)
  qed (simp_all add: a)
qed (cases b; simp)+

lemma valid_half: "valid half"
  by (simp add: half_eq)

lemma valid_two: "valid two"
  by (simp add: two_eq)

lemma flt_zero_iff:
  "flt (Finite s m e) zero \<longleftrightarrow> (if s then 0 < m else m < 0)"
  by (simp add: zero_eq Let_def signed_def zero_less_mult_iff mult_less_0_iff)

lemma fsqrt_negative:
  assumes "valid x" and "flt x zero"
  shows "fsqrt x = NaN"
proof (cases x)
  case NaN
  then show ?thesis by simp
next
  case (Infinity s)
  with assms(2) show ?thesis by (simp add: zero_eq)
next
  case (Finite s m e)
  with assms have "s \<and> 0 < m"
    by (auto simp: flt_zero_iff split: if_splits)
  then show ?thesis by (simp add: Finite)
qed

lemma round_finite_unfold:
  assumes "m \<noteq> 0" and "e' = max (e + bitlen m - 53) (- 1074)"
  shows "round_finite s m e =
      (if e' \<le> e then
         (if 971 < e' then Infinity s else Finite s (m * 2 ^ nat (e - e')) e')
       else if rne m (nat (e' - e)) = 2 ^ 53 then
         (if 971 < e' + 1 then Infinity s else Finite s (2 ^ 52) (e' + 1))
       else if 971 < e' then Infinity s
       else Finite s (rne m (nat (e' - e))) e')"
  unfolding round_finite_def assms(2) Let_def using assms(1) by simp

lemma rne_scale:
  assumes "0 < k"
  shows "rne (m * 2 ^ j) (k + j) = rne m k"
proof -
  have h: "(2::int) ^ (k + j - 1) = 2 ^ (k - 1) * 2 ^ j"
    using assms by (simp add: power_add [symmetric])
  have d: "(m * 2 ^ j) div 2 ^ (k + j) = m div 2 ^ k"
    by (simp add: power_add)
  have r: "(m * 2 ^ j) mod 2 ^ (k + j) = (m mod 2 ^ k) * 2 ^ j"
    by (simp add: power_add)
  show ?thesis
    unfolding rne_def Let_def d r h by simp
qed

lemma rne_exact:
  assumes "0 < k" and "k \<le> j"
  shows "rne (m * 2 ^ j) k = m * 2 ^ (j - k)"
proof -
  have split: "m * 2 ^ j = (m * 2 ^ (j - k)) * 2 ^ k"
    using assms(2) by (simp add: power_add [symmetric])
  have d: "(m * 2 ^ j) div 2 ^ k = m * 2 ^ (j - k)"
    unfolding split by simp
  have r: "(m * 2 ^ j) mod 2 ^ k = 0"
    unfolding split by simp
  show ?thesis
    unfolding rne_def Let_def d r by simp
qed

lemma round_finite_scale:
  assumes "0 < m"
  shows "round_finite s (m * 2 ^ j) (e - int j) = round_finite s m e"
proof -
  define L where "L = bitlen m"
  define e' where "e' = max (e + L - 53) (- 1074)"
  have L: "0 < L" unfolding L_def using assms by (rule bitlen_gt0)
  have hi: "m < 2 ^ nat L"
    unfolding L_def using bitlen_bounds [OF assms] by simp
  have e'2: "e + L - 53 \<le> e'" by (simp add: e'_def)
  have pos: "m * 2 ^ j \<noteq> 0" "m \<noteq> 0" using assms by simp_all
  have "e' = max (e - int j + bitlen (m * 2 ^ j) - 53) (- 1074)"
    by (simp add: e'_def L_def bitlen_shift [OF assms])
  note scaled = round_finite_unfold [OF pos(1) this, of s]
  have "e' = max (e + bitlen m - 53) (- 1074)"
    by (simp add: e'_def L_def)
  note orig = round_finite_unfold [OF pos(2) this, of s]
  consider "e' \<le> e - int j" | "e - int j < e'" "e' \<le> e" | "e < e'"
    by linarith
  then show ?thesis
  proof cases
    case 1
    then have "nat (e - e') = j + nat (e - int j - e')" by linarith
    then have "m * 2 ^ j * 2 ^ nat (e - int j - e') = m * 2 ^ nat (e - e')"
      by (simp add: power_add)
    then show ?thesis
      unfolding scaled orig using 1 by simp
  next
    case 2
    define k where "k = nat (e' - (e - int j))"
    have k: "0 < k" "k \<le> j" "j - k = nat (e - e')"
      using 2 by (simp_all add: k_def)
    have q: "rne (m * 2 ^ j) k = m * 2 ^ nat (e - e')"
      using rne_exact [OF k(1,2), of m] k(3) by simp
    have "nat L + nat (e - e') \<le> 53" using e'2 2 L by linarith
    then have "(2::int) ^ (nat L + nat (e - e')) \<le> 2 ^ 53" by (rule pow2_le)
    moreover have "m * 2 ^ nat (e - e') < 2 ^ nat L * 2 ^ nat (e - e')" using hi by simp
    moreover have "(2::int) ^ nat L * 2 ^ nat (e - e') = 2 ^ (nat L + nat (e - e'))"
      by (simp add: power_add)
    ultimately have "m * 2 ^ nat (e - e') < 2 ^ 53" by linarith
    then have ne: "m * 2 ^ nat (e - e') \<noteq> 2 ^ 53" by simp
    show ?thesis
      unfolding scaled orig k_def [symmetric] q using 2 ne by simp
  next
    case 3
    define k where "k = nat (e' - e)"
    have k: "0 < k" "nat (e' - (e - int j)) = k + j"
      unfolding k_def using 3 by linarith+
    show ?thesis
      unfolding scaled orig k(2) k_def [symmetric] rne_scale [OF k(1)] using 3 by simp
  qed
qed

lemma bitlen_pow2: "bitlen (2 ^ j) = 1 + int j"
proof -
  have "bitlen 1 = 1" by (simp add: bitlen_pos)
  then show ?thesis using bitlen_shift [of 1 j] by simp
qed

lemma bitlen_le:
  assumes "0 < m" and "m < 2 ^ j"
  shows "bitlen m \<le> int j"
proof -
  have "(2::int) ^ nat (bitlen m - 1) < 2 ^ j"
    using bitlen_bounds [OF assms(1)] assms(2) by linarith
  then have "nat (bitlen m - 1) < j"
    by (simp add: power_strict_increasing_iff)
  then show ?thesis by linarith
qed

lemma halve:
  assumes "valid x"
  shows "fmul x half = fdiv x two"
proof (cases x)
  case NaN
  then show ?thesis by (simp add: half_eq two_eq)
next
  case (Infinity s)
  then show ?thesis by (simp add: half_eq two_eq)
next
  case (Finite s m e)
  show ?thesis
  proof (cases "m = 0")
    case True
    then show ?thesis by (simp add: Finite half_eq two_eq round_finite_def)
  next
    case False
    with assms Finite have pos: "0 < m" and up: "m < 2 ^ 53" by simp_all
    have L: "0 < bitlen m" "bitlen m \<le> 53"
      using bitlen_gt0 [OF pos] bitlen_le [OF pos up] by simp_all
    define k where "k = nat (109 - bitlen m)"
    have k: "int k = 109 - bitlen m" "52 \<le> k" "51 \<le> k"
      using L by (simp_all add: k_def)
    have mul: "fmul x half = round_finite s (m * 2 ^ 52) (e - 1 - int 52)"
      by (simp add: Finite half_eq)
    have kmax: "max 0 (56 + bitlen (2 ^ 52) - bitlen m) = int k"
      unfolding bitlen_pow2 using L k(1) by simp
    have split: "m * 2 ^ k = (m * 2 ^ (k - 52)) * 2 ^ 52"
      using k(2) by (simp only: mult.assoc power_add [symmetric]) simp
    have d: "(m * 2 ^ k) div 2 ^ 52 = m * 2 ^ (k - 52)"
      unfolding split by (rule nonzero_mult_div_cancel_right) simp
    have r: "(m * 2 ^ k) mod 2 ^ 52 = 0"
      unfolding split by (rule mod_mult_self2_is_0)
    have two_d: "2 * (m * 2 ^ (k - 52)) = m * 2 ^ (k - 51)"
    proof -
      have "k - 51 = Suc (k - 52)" using k(2) by simp
      then show ?thesis by simp
    qed
    have "round_ratio s m (2 ^ 52) (e + 51) =
        round_finite s (m * 2 ^ (k - 51)) (e + 51 - int k - 1)"
      unfolding round_ratio_def Let_def kmax nat_int d r two_d by simp
    moreover have "e + 51 - int k - 1 = e - 1 - int (k - 51)"
      using k(3) by simp
    ultimately have div: "fdiv x two = round_finite s (m * 2 ^ (k - 51)) (e - 1 - int (k - 51))"
      using False by (simp add: Finite two_eq)
    show ?thesis
      unfolding mul div round_finite_scale [OF pos] ..
  qed
qed

text \<open>The integer square root is the floor of the root.\<close>

lemma isqrt_correct:
  "0 \<le> n \<Longrightarrow> isqrt n * isqrt n \<le> n \<and> n < (isqrt n + 1) * (isqrt n + 1)"
proof (induction n rule: isqrt.induct)
  case (1 n)
  show ?case
  proof (cases "n < 4")
    case True
    then show ?thesis using "1.prems" by (subst (1 2 3 4) isqrt.simps) auto
  next
    case False
    define r where "r = isqrt (n div 4)"
    have IH: "r * r \<le> n div 4" "n div 4 < (r + 1) * (r + 1)"
      using "1.IH" False "1.prems" by (simp_all add: r_def)
    have s: "isqrt n = (if (2 * r + 1) * (2 * r + 1) \<le> n then 2 * r + 1 else 2 * r)"
      using False by (subst isqrt.simps) (simp add: r_def Let_def)
    have lo: "(2 * r) * (2 * r) \<le> n"
    proof -
      have "4 * (r * r) \<le> 4 * (n div 4)" using IH(1) by simp
      also have "\<dots> \<le> n" by presburger
      finally show ?thesis by (simp add: algebra_simps)
    qed
    have hi: "n < (2 * r + 2) * (2 * r + 2)"
    proof -
      have "n div 4 + 1 \<le> (r + 1) * (r + 1)" using IH(2) by simp
      then have "4 * (n div 4) + 4 \<le> 4 * ((r + 1) * (r + 1))" by simp
      moreover have "n < 4 * (n div 4) + 4" by presburger
      ultimately show ?thesis by (simp add: algebra_simps)
    qed
    show ?thesis
      unfolding s using lo hi by (auto simp: algebra_simps)
  qed
qed

text \<open>
  Five results of the arithmetic against the same operations on IEEE 754 hardware:
  \<open>0.1 + 0.2\<close>, \<open>sqrt(2.0)\<close>, \<open>1.0 / 3.0\<close>, \<open>0.1 * 0.1\<close> and \<open>0.3 - 0.1\<close>.
\<close>

lemma arithmetic_check:
  "fadd (literal 1 1) (literal 2 1) = literal 30000000000000004 17"
  "fsqrt two = Finite False 6369051672525773 (- 52)"
  "fdiv (literal 10 1) (literal 30 1) = Finite False 6004799503160661 (- 54)"
  "fmul (literal 1 1) (literal 1 1) = literal 10000000000000002 18"
  "fsub (literal 3 1) (literal 1 1) = literal 19999999999999998 17"
  by code_simp+

section \<open>The formulas of the three shapes\<close>

lemma members_new [simp]:
  "members (new_Rectangle w h) = Rectangle w h"
  "members (new_Circle r) = Circle r (fmul r r)"
  "members (new_Triangle s1 s2 s3) = Triangle s1 s2 s3 (fmul (fadd (fadd s1 s2) s3) half)"
  by (simp_all add: new_Rectangle_def new_Circle_def new_Triangle_def Shape_def)

text \<open>
  Claim C5. A Rectangle made with width \<open>w\<close> and height \<open>h\<close> has area \<open>w * h\<close> and
  perimeter \<open>2 * (w + h)\<close>, in double arithmetic, for all doubles \<open>w\<close> and \<open>h\<close>: the
  constructor rejects nothing. Negative and zero dimensions go through the formulas:
  \<open>Rectangle(-1, 2)\<close> has area \<open>-2\<close>, \<open>Rectangle(-1, -1)\<close> has perimeter \<open>-4\<close>, and
  \<open>Rectangle(0, 5)\<close> has area \<open>0\<close> and perimeter \<open>10\<close>.
\<close>

theorem Rectangle_formulas:
  "calculateArea (new_Rectangle w h) = fmul w h \<and>
   calculatePerimeter (new_Rectangle w h) = fmul two (fadd w h) \<and>
   calculateArea (new_Rectangle (fneg (literal 10 1)) (literal 20 1)) = fneg (literal 20 1) \<and>
   calculatePerimeter (new_Rectangle (fneg (literal 10 1)) (fneg (literal 10 1))) =
     fneg (literal 40 1) \<and>
   calculateArea (new_Rectangle zero (literal 50 1)) = zero \<and>
   calculatePerimeter (new_Rectangle zero (literal 50 1)) = literal 100 1"
proof (intro conjI)
  show "calculateArea (new_Rectangle w h) = fmul w h"
    by (simp add: calculateArea_def)
  show "calculatePerimeter (new_Rectangle w h) = fmul two (fadd w h)"
    by (simp add: calculatePerimeter_def)
  show "calculateArea (new_Rectangle (fneg (literal 10 1)) (literal 20 1)) = fneg (literal 20 1)"
    by code_simp
  show "calculatePerimeter (new_Rectangle (fneg (literal 10 1)) (fneg (literal 10 1))) =
      fneg (literal 40 1)"
    by code_simp
  show "calculateArea (new_Rectangle zero (literal 50 1)) = zero"
    by code_simp
  show "calculatePerimeter (new_Rectangle zero (literal 50 1)) = literal 100 1"
    by code_simp
qed

text \<open>
  Claim C6. A Circle made with radius \<open>r\<close> has area \<open>PI * r^2\<close>, the square being the
  product \<open>r * r\<close> stored by the constructor, and perimeter \<open>2 * PI * r\<close>, in double
  arithmetic. \<open>PI\<close> is the double that the literal \<open>3.14159265358979323846\<close> converts to:
  \<open>7074237752028440 * 2^-51\<close>, a canonical double, not above the decimal and within half
  a unit in the last place (the unit is \<open>2^-51\<close>) of it: the decimal truncated, which is
  here also the decimal rounded to nearest.
\<close>

theorem Circle_formulas:
  "calculateArea (new_Circle r) = fmul PI (fmul r r) \<and>
   calculatePerimeter (new_Circle r) = fmul (fmul two PI) r \<and>
   PI = Finite False 7074237752028440 (- 51) \<and> valid PI \<and>
   valof PI \<le> 314159265358979323846 / 10 ^ 20 \<and>
   \<bar>314159265358979323846 / 10 ^ 20 - valof PI\<bar> < 2 powi (- 51) / 2"
proof (intro conjI)
  show "calculateArea (new_Circle r) = fmul PI (fmul r r)"
    by (simp add: calculateArea_def)
  show "calculatePerimeter (new_Circle r) = fmul (fmul two PI) r"
    by (simp add: calculatePerimeter_def)
  show "PI = Finite False 7074237752028440 (- 51)"
    by (rule PI_eq)
  show "valid PI"
    by (simp add: PI_eq)
  show "valof PI \<le> 314159265358979323846 / 10 ^ 20"
    by (simp add: valof_PI field_simps)
  show "\<bar>314159265358979323846 / 10 ^ 20 - valof PI\<bar> < 2 powi (- 51) / 2"
    by (simp add: valof_PI power_int_minus field_simps)
qed

text \<open>
  Claim C8. The Triangle made with sides 3, 4 and 5 has area exactly the double 6.0 and
  perimeter exactly the double 12.0.
\<close>

theorem Triangle_3_4_5:
  "calculateArea (new_Triangle (literal 30 1) (literal 40 1) (literal 50 1)) = literal 60 1 \<and>
   calculatePerimeter (new_Triangle (literal 30 1) (literal 40 1) (literal 50 1)) =
     literal 120 1 \<and>
   valof (literal 60 1) = 6 \<and> valof (literal 120 1) = 12"
proof (intro conjI)
  show "calculateArea (new_Triangle (literal 30 1) (literal 40 1) (literal 50 1)) = literal 60 1"
    by code_simp
  show "calculatePerimeter (new_Triangle (literal 30 1) (literal 40 1) (literal 50 1)) =
      literal 120 1"
    by code_simp
  have "literal 60 1 = Finite False 6755399441055744 (- 50)"
    by code_simp
  then show "valof (literal 60 1) = 6"
    by (simp add: power_int_minus)
  have "literal 120 1 = Finite False 6755399441055744 (- 49)"
    by code_simp
  then show "valof (literal 120 1) = 12"
    by (simp add: power_int_minus)
qed

text \<open>
  Claim C7. A Triangle made with sides \<open>a\<close>, \<open>b\<close> and \<open>c\<close> stores the semi-perimeter
  \<open>s = (a + b + c) / 2\<close>: the constructor multiplies by \<open>0.5\<close>, which is the same double as
  the division by \<open>2\<close> for every sum. Its area is \<open>sqrt(s * (s - a) * (s - b) * (s - c))\<close>
  and its perimeter is \<open>2 * s\<close>, in double arithmetic.
\<close>

theorem Triangle_formulas:
  "members (new_Triangle a b c) = Triangle a b c (semi_perimeter_spec a b c) \<and>
   calculateArea (new_Triangle a b c) = heron_spec (semi_perimeter_spec a b c) a b c \<and>
   calculatePerimeter (new_Triangle a b c) = fmul two (semi_perimeter_spec a b c)"
proof -
  have "fmul (fadd (fadd a b) c) half = semi_perimeter_spec a b c"
    unfolding semi_perimeter_spec_def by (rule halve) (rule valid_fadd)
  then show ?thesis
    by (simp add: calculateArea_def calculatePerimeter_def heron_spec_def)
qed

lemma fresh_Triangle [simp]:
  "cached_area (new_Triangle a b c) = minus_one"
  by (simp add: new_Triangle_def Shape_def)

text \<open>
  Claim C2, as amended. When the radicand \<open>s * (s - a) * (s - b) * (s - c)\<close> that
  \<open>calculateArea\<close> computes for a Triangle is below zero, the area is NaN, and the cached
  accessor hands the NaN out and stores it like any other value: nothing is raised, the
  functions have no error result. Nothing is required of the sides.
\<close>

theorem Triangle_negative_radicand:
  assumes "s = fmul (fadd (fadd a b) c) half"
    and "flt (fmul (fmul (fmul s (fsub s a)) (fsub s b)) (fsub s c)) zero"
  shows "calculateArea (new_Triangle a b c) = NaN \<and>
         getArea (new_Triangle a b c) w =
           (NaN, (new_Triangle a b c)\<lparr>cached_area := NaN\<rparr>, called CalculateArea w)"
proof -
  have "valid s"
    unfolding assms(1) by (intro valid_fmul valid_fadd valid_half)
  then have "valid (fmul (fmul (fmul s (fsub s a)) (fsub s b)) (fsub s c))"
    by (intro valid_fmul valid_fsub)
  from fsqrt_negative [OF this assms(2)]
  have area: "calculateArea (new_Triangle a b c) = NaN"
    by (simp add: calculateArea_def assms(1))
  then show ?thesis
    using flt_minus_one_zero by (simp add: getArea_def Let_def)
qed

text \<open>
  Claim C2 at the sides 1, 1 and 10 of the specification: the radicand is \<open>-600\<close> and
  the area is NaN.
\<close>

theorem Triangle_negative_radicand_witness:
  "fmul (fmul (fmul (fmul (fadd (fadd (literal 10 1) (literal 10 1)) (literal 100 1)) half)
       (fsub (fmul (fadd (fadd (literal 10 1) (literal 10 1)) (literal 100 1)) half)
          (literal 10 1)))
     (fsub (fmul (fadd (fadd (literal 10 1) (literal 10 1)) (literal 100 1)) half)
        (literal 10 1)))
     (fsub (fmul (fadd (fadd (literal 10 1) (literal 10 1)) (literal 100 1)) half)
        (literal 100 1)) = fneg (literal 6000 1) \<and>
   flt (fneg (literal 6000 1)) zero \<and>
   calculateArea (new_Triangle (literal 10 1) (literal 10 1) (literal 100 1)) = NaN \<and>
   getArea (new_Triangle (literal 10 1) (literal 10 1) (literal 100 1)) world_init =
     (NaN, (new_Triangle (literal 10 1) (literal 10 1) (literal 100 1))\<lparr>cached_area := NaN\<rparr>,
      called CalculateArea world_init)"
proof -
  define s where "s = fmul (fadd (fadd (literal 10 1) (literal 10 1)) (literal 100 1)) half"
  have radicand: "fmul (fmul (fmul s (fsub s (literal 10 1))) (fsub s (literal 10 1)))
      (fsub s (literal 100 1)) = fneg (literal 6000 1)"
    unfolding s_def by code_simp
  have negative: "flt (fneg (literal 6000 1)) zero"
    by code_simp
  from radicand negative
  have "flt (fmul (fmul (fmul s (fsub s (literal 10 1))) (fsub s (literal 10 1)))
      (fsub s (literal 100 1))) zero"
    by simp
  from Triangle_negative_radicand [OF s_def this, of world_init] radicand negative
  show ?thesis
    unfolding s_def by simp
qed

text \<open>
  Claim C2 as stated, for every Triangle whose sides violate the triangle inequality,
  fails. The sides \<open>-3\<close>, \<open>-4\<close>, \<open>-5\<close> have \<open>a + b < c\<close>, the radicand is 36 and the area
  is 6.0. The sides \<open>2^-300\<close>, \<open>2^-300\<close>, \<open>10 * 2^-300\<close> have \<open>a + b < c\<close>, the radicand
  underflows to \<open>-0.0\<close> and the area is \<open>-0.0\<close>. Neither area is a NaN.
\<close>

theorem Triangle_inequality_counterexample:
  "flt (fadd (fneg (literal 30 1)) (fneg (literal 40 1))) (fneg (literal 50 1)) \<and>
   calculateArea (new_Triangle (fneg (literal 30 1)) (fneg (literal 40 1)) (fneg (literal 50 1)))
     = literal 60 1 \<and>
   flt (fadd (Finite False (2 ^ 52) (- 352)) (Finite False (2 ^ 52) (- 352)))
     (fmul (literal 100 1) (Finite False (2 ^ 52) (- 352))) \<and>
   calculateArea (new_Triangle (Finite False (2 ^ 52) (- 352)) (Finite False (2 ^ 52) (- 352))
     (fmul (literal 100 1) (Finite False (2 ^ 52) (- 352)))) = Finite True 0 (- 1074)"
  by code_simp

section \<open>The cached accessors and their clients\<close>

lemma calculate_cache_update [simp]:
  "calculateArea (s\<lparr>cached_area := v\<rparr>) = calculateArea s"
  "calculateArea (s\<lparr>cached_perimeter := v\<rparr>) = calculateArea s"
  "calculatePerimeter (s\<lparr>cached_area := v\<rparr>) = calculatePerimeter s"
  "calculatePerimeter (s\<lparr>cached_perimeter := v\<rparr>) = calculatePerimeter s"
  by (simp_all add: calculateArea_def calculatePerimeter_def)

lemma calls_emit [simp]: "calls (emit xs w) = calls w"
  by (simp add: emit_def)

lemma cout_called [simp]: "cout (called f w) = cout w"
  by (simp add: called_def)

lemma calls_called [simp]: "calls (called f w) = calls w @ [f]"
  by (simp add: called_def)

text \<open>An invariant of the three primitive steps is an invariant of every request.\<close>

lemma displayInfo_preserves:
  assumes A: "\<And>s w. P s w \<Longrightarrow> P (fst (snd (getArea s w))) (snd (snd (getArea s w)))"
    and B: "\<And>s w. P s w \<Longrightarrow> P (fst (snd (getPerimeter s w))) (snd (snd (getPerimeter s w)))"
    and C: "\<And>s w xs. P s w \<Longrightarrow> P s (emit xs w)"
    and "P s w"
  shows "P (fst (displayInfo s w)) (snd (displayInfo s w))"
proof -
  define w1 where "w1 = emit ([Text ''Shape: '', Text (name s)] @ dimensions (members s) @
    [Text (nl # ''Area: '')]) w"
  define s2 where "s2 = fst (snd (getArea s w1))"
  define w2 where "w2 = snd (snd (getArea s w1))"
  define w3 where "w3 = emit [Number (fst (getArea s w1)), Text (perimeter_label (members s))] w2"
  define s4 where "s4 = fst (snd (getPerimeter s2 w3))"
  define w4 where "w4 = snd (snd (getPerimeter s2 w3))"
  define w5 where "w5 = emit [Number (fst (getPerimeter s2 w3)), Text rule_line] w4"
  have "P s w1" unfolding w1_def using \<open>P s w\<close> by (rule C)
  then have "P s2 w2" unfolding s2_def w2_def by (rule A)
  then have "P s2 w3" unfolding w3_def by (rule C)
  then have "P s4 w4" unfolding s4_def w4_def by (rule B)
  then have "P s4 w5" unfolding w5_def by (rule C)
  moreover have "displayInfo s w = (s4, w5)"
    by (simp add: displayInfo_def Let_def split_beta w1_def s2_def w2_def w3_def s4_def
        w4_def w5_def)
  ultimately show ?thesis by simp
qed

lemma invoke_preserves:
  assumes A: "\<And>s w. P s w \<Longrightarrow> P (fst (snd (getArea s w))) (snd (snd (getArea s w)))"
    and B: "\<And>s w. P s w \<Longrightarrow> P (fst (snd (getPerimeter s w))) (snd (snd (getPerimeter s w)))"
    and C: "\<And>s w xs. P s w \<Longrightarrow> P s (emit xs w)"
    and "P s w"
  shows "P (fst (invoke r s w)) (snd (invoke r s w))"
proof (cases r)
  case GetArea
  then show ?thesis using A [OF \<open>P s w\<close>] by simp
next
  case GetPerimeter
  then show ?thesis using B [OF \<open>P s w\<close>] by simp
next
  case DisplayInfo
  then show ?thesis using displayInfo_preserves [of P, OF A B C \<open>P s w\<close>] by simp
next
  case ProcessShape
  then show ?thesis
    using displayInfo_preserves [of P, OF A B C C [OF \<open>P s w\<close>]]
    by (simp add: processShape_def)
next
  case GetName
  then show ?thesis using \<open>P s w\<close> by simp
qed

lemma run_preserves:
  assumes A: "\<And>s w. P s w \<Longrightarrow> P (fst (snd (getArea s w))) (snd (snd (getArea s w)))"
    and B: "\<And>s w. P s w \<Longrightarrow> P (fst (snd (getPerimeter s w))) (snd (snd (getPerimeter s w)))"
    and C: "\<And>s w xs. P s w \<Longrightarrow> P s (emit xs w)"
  shows "P s w \<Longrightarrow> P (fst (run rs s w)) (snd (run rs s w))"
proof (induction rs arbitrary: s w)
  case Nil
  then show ?case by simp
next
  case (Cons r rs)
  have "P (fst (invoke r s w)) (snd (invoke r s w))"
    using invoke_preserves [of P, OF A B C Cons.prems] by simp
  from Cons.IH [OF this] show ?case
    by (simp add: split_beta)
qed


lemma construct_fresh [simp]:
  "cached_area (construct c) = minus_one"
  "cached_perimeter (construct c) = minus_one"
  by (cases c; simp add: new_Rectangle_def new_Circle_def new_Triangle_def Shape_def)+

lemma run_append:
  "run (rs @ rs') s w = run rs' (fst (run rs s w)) (snd (run rs s w))"
  by (induction rs arbitrary: s w) (simp_all add: split_beta)

subsection \<open>What never changes\<close>

lemma run_fixed:
  "name (fst (run rs s w)) = name s \<and> members (fst (run rs s w)) = members s"
proof -
  define P where "P = (\<lambda>(t::shape) (v::world). name t = name s \<and> members t = members s)"
  have "P (fst (run rs s w)) (snd (run rs s w))"
    by (rule run_preserves) (simp_all add: P_def getArea_def getPerimeter_def Let_def)
  then show ?thesis by (simp add: P_def)
qed

lemma run_calculate [simp]:
  "calculateArea (fst (run rs s w)) = calculateArea s"
  "calculatePerimeter (fst (run rs s w)) = calculatePerimeter s"
  by (simp_all add: calculateArea_def calculatePerimeter_def run_fixed)

subsection \<open>The caches of a constructed shape\<close>

text \<open>Each cache holds \<open>-1.0\<close> or the value of its formula.\<close>

lemma run_cache:
  assumes "cached_area s = minus_one \<or> cached_area s = calculateArea s"
    and "cached_perimeter s = minus_one \<or> cached_perimeter s = calculatePerimeter s"
  shows "(cached_area (fst (run rs s w)) = minus_one \<or>
          cached_area (fst (run rs s w)) = calculateArea s) \<and>
         (cached_perimeter (fst (run rs s w)) = minus_one \<or>
          cached_perimeter (fst (run rs s w)) = calculatePerimeter s)"
proof -
  define P where "P = (\<lambda>(t::shape) (v::world).
    calculateArea t = calculateArea s \<and> calculatePerimeter t = calculatePerimeter s \<and>
    (cached_area t = minus_one \<or> cached_area t = calculateArea s) \<and>
    (cached_perimeter t = minus_one \<or> cached_perimeter t = calculatePerimeter s))"
  have "P (fst (run rs s w)) (snd (run rs s w))"
  proof (rule run_preserves)
    show "P s w" using assms by (simp add: P_def)
  qed (auto simp: P_def getArea_def getPerimeter_def Let_def)
  then show ?thesis by (simp add: P_def)
qed

lemma getArea_value:
  assumes "cached_area s = minus_one \<or> cached_area s = calculateArea s"
  shows "fst (getArea s w) = calculateArea s"
  using assms flt_minus_one_zero by (auto simp: getArea_def Let_def)

lemma getPerimeter_value:
  assumes "cached_perimeter s = minus_one \<or> cached_perimeter s = calculatePerimeter s"
  shows "fst (getPerimeter s w) = calculatePerimeter s"
  using assms flt_minus_one_zero by (auto simp: getPerimeter_def Let_def)

lemma reachable_cache:
  "(cached_area (fst (run rs (construct c) w)) = minus_one \<or>
    cached_area (fst (run rs (construct c) w)) = calculateArea (construct c)) \<and>
   (cached_perimeter (fst (run rs (construct c) w)) = minus_one \<or>
    cached_perimeter (fst (run rs (construct c) w)) = calculatePerimeter (construct c))"
  by (rule run_cache) simp_all

lemma reachable_values:
  "fst (getArea (fst (run rs (construct c) w)) w') = calculateArea (construct c)"
  "fst (getPerimeter (fst (run rs (construct c) w)) w') = calculatePerimeter (construct c)"
  using reachable_cache [of rs c w] getArea_value [of "fst (run rs (construct c) w)" w']
    getPerimeter_value [of "fst (run rs (construct c) w)" w']
  by simp_all

lemma count_calls_called [simp]:
  "count_list (calls (called f w)) g = count_list (calls w) g + (if f = g then 1 else 0)"
  by (simp add: called_def)

text \<open>While the value of the formula is not below zero, it is computed at most once.\<close>

lemma area_set_run:
  assumes "\<not> flt (calculateArea s0) zero" and "area_set s0 n s w"
  shows "area_set s0 n (fst (run rs s w)) (snd (run rs s w))"
proof (rule run_preserves)
  show "area_set s0 n s w" by fact
qed (use assms(1) in \<open>auto simp: area_set_def getArea_def getPerimeter_def Let_def\<close>)

lemma area_either_run:
  assumes "\<not> flt (calculateArea s0) zero" and "area_unset s0 n s w \<or> area_set s0 n s w"
  shows "area_unset s0 n (fst (run rs s w)) (snd (run rs s w)) \<or>
         area_set s0 n (fst (run rs s w)) (snd (run rs s w))"
proof -
  define P where "P = (\<lambda>t u. area_unset s0 n t u \<or> area_set s0 n t u)"
  have "P (fst (run rs s w)) (snd (run rs s w))"
  proof (rule run_preserves)
    show "P s w" using assms(2) by (simp add: P_def)
  qed (use assms(1) flt_minus_one_zero in
      \<open>auto simp: P_def area_set_def area_unset_def getArea_def getPerimeter_def Let_def\<close>)
  then show ?thesis by (simp add: P_def)
qed

lemma area_set_invoke:
  assumes "\<not> flt (calculateArea s0) zero" and "area_unset s0 n s w \<or> area_set s0 n s w"
    and "uses_area r"
  shows "area_set s0 n (fst (invoke r s w)) (snd (invoke r s w))"
  using assms flt_minus_one_zero
  by (cases r)
    (auto simp: area_set_def area_unset_def displayInfo_def processShape_def getArea_def
      getPerimeter_def Let_def split_beta)

lemma area_unset_run:
  assumes "filter uses_area rs = []" and "area_unset s0 n s w"
  shows "area_unset s0 n (fst (run rs s w)) (snd (run rs s w))"
  using assms
proof (induction rs arbitrary: s w)
  case Nil
  then show ?case by simp
next
  case (Cons r rs)
  from Cons.prems(1) have r: "\<not> uses_area r" and rs: "filter uses_area rs = []"
    by (auto split: if_splits)
  have "area_unset s0 n (fst (invoke r s w)) (snd (invoke r s w))"
    using r Cons.prems(2)
    by (cases r) (auto simp: area_unset_def getPerimeter_def Let_def)
  from Cons.IH [OF rs this] show ?case by (simp add: split_beta)
qed

lemma area_set_after_use:
  assumes v: "\<not> flt (calculateArea s0) zero" and s: "area_unset s0 n s w"
    and rs: "filter uses_area rs \<noteq> []"
  shows "area_set s0 n (fst (run rs s w)) (snd (run rs s w))"
proof -
  from rs obtain r where "r \<in> set rs" "uses_area r"
    by (auto simp: filter_empty_conv)
  then obtain rs1 rs2 where split: "rs = rs1 @ r # rs2"
    by (auto dest: split_list)
  define s1 where "s1 = fst (run rs1 s w)"
  define w1 where "w1 = snd (run rs1 s w)"
  have "area_unset s0 n s1 w1 \<or> area_set s0 n s1 w1"
    unfolding s1_def w1_def using area_either_run [OF v] s by blast
  then have "area_set s0 n (fst (invoke r s1 w1)) (snd (invoke r s1 w1))"
    using area_set_invoke [OF v _ \<open>uses_area r\<close>] by blast
  from area_set_run [OF v this, of rs2] show ?thesis
    by (simp add: split run_append s1_def w1_def split_beta)
qed



lemma perimeter_set_run:
  assumes "\<not> flt (calculatePerimeter s0) zero" and "perimeter_set s0 n s w"
  shows "perimeter_set s0 n (fst (run rs s w)) (snd (run rs s w))"
proof (rule run_preserves)
  show "perimeter_set s0 n s w" by fact
qed (use assms(1) in \<open>auto simp: perimeter_set_def getArea_def getPerimeter_def Let_def\<close>)

lemma perimeter_either_run:
  assumes "\<not> flt (calculatePerimeter s0) zero" and "perimeter_unset s0 n s w \<or> perimeter_set s0 n s w"
  shows "perimeter_unset s0 n (fst (run rs s w)) (snd (run rs s w)) \<or>
         perimeter_set s0 n (fst (run rs s w)) (snd (run rs s w))"
proof -
  define P where "P = (\<lambda>t u. perimeter_unset s0 n t u \<or> perimeter_set s0 n t u)"
  have "P (fst (run rs s w)) (snd (run rs s w))"
  proof (rule run_preserves)
    show "P s w" using assms(2) by (simp add: P_def)
  qed (use assms(1) flt_minus_one_zero in
      \<open>auto simp: P_def perimeter_set_def perimeter_unset_def getArea_def getPerimeter_def Let_def\<close>)
  then show ?thesis by (simp add: P_def)
qed

lemma perimeter_set_invoke:
  assumes "\<not> flt (calculatePerimeter s0) zero" and "perimeter_unset s0 n s w \<or> perimeter_set s0 n s w"
    and "uses_perimeter r"
  shows "perimeter_set s0 n (fst (invoke r s w)) (snd (invoke r s w))"
  using assms flt_minus_one_zero
  by (cases r)
    (auto simp: perimeter_set_def perimeter_unset_def displayInfo_def processShape_def getArea_def
      getPerimeter_def Let_def split_beta)

lemma perimeter_unset_run:
  assumes "filter uses_perimeter rs = []" and "perimeter_unset s0 n s w"
  shows "perimeter_unset s0 n (fst (run rs s w)) (snd (run rs s w))"
  using assms
proof (induction rs arbitrary: s w)
  case Nil
  then show ?case by simp
next
  case (Cons r rs)
  from Cons.prems(1) have r: "\<not> uses_perimeter r" and rs: "filter uses_perimeter rs = []"
    by (auto split: if_splits)
  have "perimeter_unset s0 n (fst (invoke r s w)) (snd (invoke r s w))"
    using r Cons.prems(2)
    by (cases r) (auto simp: perimeter_unset_def getArea_def Let_def)
  from Cons.IH [OF rs this] show ?case by (simp add: split_beta)
qed

lemma perimeter_set_after_use:
  assumes v: "\<not> flt (calculatePerimeter s0) zero" and s: "perimeter_unset s0 n s w"
    and rs: "filter uses_perimeter rs \<noteq> []"
  shows "perimeter_set s0 n (fst (run rs s w)) (snd (run rs s w))"
proof -
  from rs obtain r where "r \<in> set rs" "uses_perimeter r"
    by (auto simp: filter_empty_conv)
  then obtain rs1 rs2 where split: "rs = rs1 @ r # rs2"
    by (auto dest: split_list)
  define s1 where "s1 = fst (run rs1 s w)"
  define w1 where "w1 = snd (run rs1 s w)"
  have "perimeter_unset s0 n s1 w1 \<or> perimeter_set s0 n s1 w1"
    unfolding s1_def w1_def using perimeter_either_run [OF v] s by blast
  then have "perimeter_set s0 n (fst (invoke r s1 w1)) (snd (invoke r s1 w1))"
    using perimeter_set_invoke [OF v _ \<open>uses_perimeter r\<close>] by blast
  from perimeter_set_run [OF v this, of rs2] show ?thesis
    by (simp add: split run_append s1_def w1_def split_beta)
qed

text \<open>
  Claim C10. In every state a constructed shape can reach through its public member
  functions, \<open>getArea\<close> returns what \<open>calculateArea\<close> returns, and \<open>getPerimeter\<close> what
  \<open>calculatePerimeter\<close> returns; the formulas still see the members the constructor set.
  Nothing is assumed of the value: it may be negative or a NaN.
\<close>

theorem accessors_transparent:
  assumes "run rs (construct c) w = (s, w')"
  shows "fst (getArea s w') = calculateArea s \<and>
         fst (getPerimeter s w') = calculatePerimeter s \<and>
         members s = members (construct c) \<and>
         calculateArea s = calculateArea (construct c) \<and>
         calculatePerimeter s = calculatePerimeter (construct c)"
proof -
  have s: "s = fst (run rs (construct c) w)"
    using assms by simp
  have fixed: "members s = members (construct c)"
    unfolding s using run_fixed [of rs "construct c" w] by simp
  then have formulas: "calculateArea s = calculateArea (construct c)"
    "calculatePerimeter s = calculatePerimeter (construct c)"
    by (simp_all add: calculateArea_def calculatePerimeter_def)
  have cache: "cached_area s = minus_one \<or> cached_area s = calculateArea s"
    "cached_perimeter s = minus_one \<or> cached_perimeter s = calculatePerimeter s"
    unfolding formulas using reachable_cache [of rs c w] by (simp_all add: s)
  have "fst (getArea s w') = calculateArea s"
  proof (cases "flt (cached_area s) zero")
    case True
    then show ?thesis by (simp add: getArea_def Let_def)
  next
    case False
    with flt_minus_one_zero have "cached_area s \<noteq> minus_one" by auto
    with cache(1) have "cached_area s = calculateArea s" by simp
    with False show ?thesis by (simp add: getArea_def)
  qed
  moreover have "fst (getPerimeter s w') = calculatePerimeter s"
  proof (cases "flt (cached_perimeter s) zero")
    case True
    then show ?thesis by (simp add: getPerimeter_def Let_def)
  next
    case False
    with flt_minus_one_zero have "cached_perimeter s \<noteq> minus_one" by auto
    with cache(2) have "cached_perimeter s = calculatePerimeter s" by simp
    with False show ?thesis by (simp add: getPerimeter_def)
  qed
  ultimately show ?thesis
    using fixed formulas by simp
qed

lemma degenerate_area: "calculateArea (construct degenerate) = NaN"
  by code_simp

text \<open>
  Claim C10 at \<open>Triangle(1, 1, 10)\<close> after \<open>getArea\<close>, \<open>getPerimeter\<close> and
  \<open>displayInfo\<close>: the accessor returns the NaN of the formula.
\<close>

theorem accessors_transparent_witness:
  "fst (getArea (fst (run demo_requests (construct degenerate) world_init))
     (snd (run demo_requests (construct degenerate) world_init))) = NaN \<and>
   fst (getPerimeter (fst (run demo_requests (construct degenerate) world_init))
     (snd (run demo_requests (construct degenerate) world_init))) =
     calculatePerimeter (construct degenerate)"
proof -
  have "run demo_requests (construct degenerate) world_init =
      (fst (run demo_requests (construct degenerate) world_init),
       snd (run demo_requests (construct degenerate) world_init))"
    by simp
  from accessors_transparent [OF this] degenerate_area show ?thesis
    by simp
qed

lemma fresh_unset:
  "area_unset (construct c) (count_list (calls w) CalculateArea) (construct c) w"
  "perimeter_unset (construct c) (count_list (calls w) CalculatePerimeter) (construct c) w"
  by (simp_all add: area_unset_def perimeter_unset_def)

text \<open>
  Claim C1, as amended. Take a constructed shape after any requests \<open>rs\<close>. The accessor
  \<open>getArea\<close> returns the value of the formula in every case. If no request has called
  \<open>getArea\<close> yet, the formula has not run, and the call runs it once and stores the value.
  If some request has, and the value is not below zero (it is positive, zero or a NaN),
  the formula has run exactly once, the cache holds the value, and the call returns it
  without running the formula or changing anything. The same holds of \<open>getPerimeter\<close>.
\<close>

theorem memoization:
  assumes "run rs (construct c) w = (s, w')"
  shows
    "fst (getArea s w') = calculateArea (construct c) \<and>
     fst (getPerimeter s w') = calculatePerimeter (construct c) \<and>
     (filter uses_area rs = [] \<longrightarrow>
        count_list (calls w') CalculateArea = count_list (calls w) CalculateArea \<and>
        getArea s w' =
          (calculateArea (construct c), s\<lparr>cached_area := calculateArea (construct c)\<rparr>,
           called CalculateArea w')) \<and>
     (filter uses_area rs \<noteq> [] \<and> \<not> flt (calculateArea (construct c)) zero \<longrightarrow>
        count_list (calls w') CalculateArea = Suc (count_list (calls w) CalculateArea) \<and>
        cached_area s = calculateArea (construct c) \<and>
        getArea s w' = (cached_area s, s, w')) \<and>
     (filter uses_perimeter rs = [] \<longrightarrow>
        count_list (calls w') CalculatePerimeter = count_list (calls w) CalculatePerimeter \<and>
        getPerimeter s w' =
          (calculatePerimeter (construct c),
           s\<lparr>cached_perimeter := calculatePerimeter (construct c)\<rparr>,
           called CalculatePerimeter w')) \<and>
     (filter uses_perimeter rs \<noteq> [] \<and> \<not> flt (calculatePerimeter (construct c)) zero \<longrightarrow>
        count_list (calls w') CalculatePerimeter =
          Suc (count_list (calls w) CalculatePerimeter) \<and>
        cached_perimeter s = calculatePerimeter (construct c) \<and>
        getPerimeter s w' = (cached_perimeter s, s, w'))"
proof -
  have s: "s = fst (run rs (construct c) w)" and w': "w' = snd (run rs (construct c) w)"
    using assms by simp_all
  have a1: "fst (getArea s w') = calculateArea (construct c)"
    unfolding s by (rule reachable_values)
  have p1: "fst (getPerimeter s w') = calculatePerimeter (construct c)"
    unfolding s by (rule reachable_values)
  have a2: "count_list (calls w') CalculateArea = count_list (calls w) CalculateArea \<and>
      getArea s w' =
        (calculateArea (construct c), s\<lparr>cached_area := calculateArea (construct c)\<rparr>,
         called CalculateArea w')"
    if "filter uses_area rs = []"
    using area_unset_run [OF that fresh_unset(1), of c w] flt_minus_one_zero
    by (simp add: area_unset_def getArea_def Let_def s [symmetric] w' [symmetric])
  have a3: "count_list (calls w') CalculateArea = Suc (count_list (calls w) CalculateArea) \<and>
      cached_area s = calculateArea (construct c) \<and> getArea s w' = (cached_area s, s, w')"
    if "filter uses_area rs \<noteq> []" "\<not> flt (calculateArea (construct c)) zero"
    using area_set_after_use [OF that(2) fresh_unset(1) that(1), of w] that(2)
    by (simp add: area_set_def getArea_def s [symmetric] w' [symmetric])
  have p2: "count_list (calls w') CalculatePerimeter = count_list (calls w) CalculatePerimeter \<and>
      getPerimeter s w' =
        (calculatePerimeter (construct c),
         s\<lparr>cached_perimeter := calculatePerimeter (construct c)\<rparr>,
         called CalculatePerimeter w')"
    if "filter uses_perimeter rs = []"
    using perimeter_unset_run [OF that fresh_unset(2), of c w] flt_minus_one_zero
    by (simp add: perimeter_unset_def getPerimeter_def Let_def s [symmetric] w' [symmetric])
  have p3: "count_list (calls w') CalculatePerimeter =
        Suc (count_list (calls w) CalculatePerimeter) \<and>
      cached_perimeter s = calculatePerimeter (construct c) \<and>
      getPerimeter s w' = (cached_perimeter s, s, w')"
    if "filter uses_perimeter rs \<noteq> []" "\<not> flt (calculatePerimeter (construct c)) zero"
    using perimeter_set_after_use [OF that(2) fresh_unset(2) that(1), of w] that(2)
    by (simp add: perimeter_set_def getPerimeter_def s [symmetric] w' [symmetric])
  from a1 p1 a2 a3 p2 p3 show ?thesis by blast
qed

lemma demo_run: "run [DisplayInfo] (construct demo_ctor) world_init = (demo_shape, demo_world)"
  by (simp add: demo_shape_def demo_world_def)

lemma demo_area_set: "\<not> flt (cached_area demo_shape) zero"
  by code_simp

lemma demo_perimeter_set: "\<not> flt (cached_perimeter demo_shape) zero"
  by code_simp

lemma demo_area_value: "\<not> flt (calculateArea (construct demo_ctor)) zero"
  by code_simp

lemma demo_perimeter_value: "\<not> flt (calculatePerimeter (construct demo_ctor)) zero"
  by code_simp

text \<open>
  Claim C1 at \<open>Circle(4.0)\<close>. On the fresh object each accessor runs its formula and
  stores the value. After one \<open>displayInfo\<close> each formula has run once and the accessors
  return the stored values.
\<close>

theorem memoization_witness:
  "getArea (construct demo_ctor) world_init =
     (calculateArea (construct demo_ctor),
      (construct demo_ctor)\<lparr>cached_area := calculateArea (construct demo_ctor)\<rparr>,
      called CalculateArea world_init) \<and>
   getPerimeter (construct demo_ctor) world_init =
     (calculatePerimeter (construct demo_ctor),
      (construct demo_ctor)\<lparr>cached_perimeter := calculatePerimeter (construct demo_ctor)\<rparr>,
      called CalculatePerimeter world_init) \<and>
   fst (getArea demo_shape demo_world) = calculateArea (construct demo_ctor) \<and>
   fst (getPerimeter demo_shape demo_world) = calculatePerimeter (construct demo_ctor) \<and>
   count_list (calls demo_world) CalculateArea = Suc (count_list (calls world_init) CalculateArea) \<and>
   cached_area demo_shape = calculateArea (construct demo_ctor) \<and>
   getArea demo_shape demo_world = (cached_area demo_shape, demo_shape, demo_world) \<and>
   count_list (calls demo_world) CalculatePerimeter =
     Suc (count_list (calls world_init) CalculatePerimeter) \<and>
   cached_perimeter demo_shape = calculatePerimeter (construct demo_ctor) \<and>
   getPerimeter demo_shape demo_world = (cached_perimeter demo_shape, demo_shape, demo_world)"
proof -
  have fresh: "run [] (construct demo_ctor) world_init = (construct demo_ctor, world_init)"
    by simp
  have none: "filter uses_area [] = []" "filter uses_perimeter [] = []"
    by simp_all
  have a: "filter uses_area [DisplayInfo] \<noteq> []" and p: "filter uses_perimeter [DisplayInfo] \<noteq> []"
    by simp_all
  from memoization [OF fresh] none memoization [OF demo_run] a p demo_area_value
    demo_perimeter_value
  show ?thesis by blast
qed

text \<open>
  Claim C1 as stated, for every shape, fails at \<open>Rectangle(-1.0, 2.0)\<close>: the area is
  \<open>-2.0\<close>, which the test \<open>cached_area < 0\<close> takes for an empty cache, and two calls of
  \<open>getArea\<close> run the formula twice.
\<close>

theorem memoization_counterexample:
  "run [GetArea, GetArea] (construct (NewRectangle (fneg (literal 10 1)) (literal 20 1)))
     world_init =
   (construct (NewRectangle (fneg (literal 10 1)) (literal 20 1))
      \<lparr>cached_area := fneg (literal 20 1)\<rparr>,
    world_init\<lparr>calls := [CalculateArea, CalculateArea]\<rparr>)"
  by code_simp

lemma area_kept_run:
  assumes "cached_area s = calculateArea s"
  shows "cached_area (fst (run rs s w)) = cached_area s"
proof -
  define P where "P = (\<lambda>(t::shape) (u::world).
    calculateArea t = calculateArea s \<and> cached_area t = calculateArea s)"
  have "P (fst (run rs s w)) (snd (run rs s w))"
  proof (rule run_preserves)
    show "P s w" using assms by (simp add: P_def)
  qed (auto simp: P_def getArea_def getPerimeter_def Let_def)
  then show ?thesis using assms by (simp add: P_def)
qed

lemma perimeter_kept_run:
  assumes "cached_perimeter s = calculatePerimeter s"
  shows "cached_perimeter (fst (run rs s w)) = cached_perimeter s"
proof -
  define P where "P = (\<lambda>(t::shape) (u::world).
    calculatePerimeter t = calculatePerimeter s \<and> cached_perimeter t = calculatePerimeter s)"
  have "P (fst (run rs s w)) (snd (run rs s w))"
  proof (rule run_preserves)
    show "P s w" using assms by (simp add: P_def)
  qed (auto simp: P_def getArea_def getPerimeter_def Let_def)
  then show ?thesis using assms by (simp add: P_def)
qed

lemma area_nonneg_run:
  assumes "\<not> flt (cached_area s) zero"
  shows "cached_area (fst (run rs s w)) = cached_area s"
proof -
  define P where "P = (\<lambda>(t::shape) (u::world). cached_area t = cached_area s)"
  have "P (fst (run rs s w)) (snd (run rs s w))"
  proof (rule run_preserves)
    show "P s w" by (simp add: P_def)
  qed (use assms in \<open>auto simp: P_def getArea_def getPerimeter_def Let_def\<close>)
  then show ?thesis by (simp add: P_def)
qed

lemma perimeter_nonneg_run:
  assumes "\<not> flt (cached_perimeter s) zero"
  shows "cached_perimeter (fst (run rs s w)) = cached_perimeter s"
proof -
  define P where "P = (\<lambda>(t::shape) (u::world). cached_perimeter t = cached_perimeter s)"
  have "P (fst (run rs s w)) (snd (run rs s w))"
  proof (rule run_preserves)
    show "P s w" by (simp add: P_def)
  qed (use assms in \<open>auto simp: P_def getArea_def getPerimeter_def Let_def\<close>)
  then show ?thesis by (simp add: P_def)
qed

lemma getArea_stores:
  assumes "getArea s w = (a, s', w')"
  shows "cached_area s' = a \<and> calculateArea s' = calculateArea s"
  using assms by (auto simp: getArea_def Let_def split: if_splits)

lemma getPerimeter_stores:
  assumes "getPerimeter s w = (p, s', w')"
  shows "cached_perimeter s' = p \<and> calculatePerimeter s' = calculatePerimeter s"
  using assms by (auto simp: getPerimeter_def Let_def split: if_splits)

text \<open>
  Claim C4. A cache that holds a value not below zero keeps it through every sequence
  of requests, for any shape at all; the name and the members never change. For a
  constructed shape in any state it can reach, the value that a call of \<open>getArea\<close> returns
  is in the cache after the call and after every sequence of requests that follows, also
  when it is negative; the same for \<open>getPerimeter\<close>.
\<close>

theorem cache_stable:
  "(\<not> flt (cached_area s) zero \<and> run rs s w = (s', w') \<longrightarrow> cached_area s' = cached_area s) \<and>
   (\<not> flt (cached_perimeter s) zero \<and> run rs s w = (s', w') \<longrightarrow>
      cached_perimeter s' = cached_perimeter s) \<and>
   (run rs s w = (s', w') \<longrightarrow> name s' = name s \<and> members s' = members s) \<and>
   (run rs0 (construct c) w0 = (t, u) \<and> getArea t u = (a, t1, u1) \<and>
    run rs t1 u1 = (t2, u2) \<longrightarrow> cached_area t1 = a \<and> cached_area t2 = a) \<and>
   (run rs0 (construct c) w0 = (t, u) \<and> getPerimeter t u = (p, t1, u1) \<and>
    run rs t1 u1 = (t2, u2) \<longrightarrow> cached_perimeter t1 = p \<and> cached_perimeter t2 = p)"
proof (intro conjI impI; (elim conjE)?)
  assume "\<not> flt (cached_area s) zero" "run rs s w = (s', w')"
  then show "cached_area s' = cached_area s"
    using area_nonneg_run [of s rs w] by simp
next
  assume "\<not> flt (cached_perimeter s) zero" "run rs s w = (s', w')"
  then show "cached_perimeter s' = cached_perimeter s"
    using perimeter_nonneg_run [of s rs w] by simp
next
  assume "run rs s w = (s', w')"
  then show "name s' = name s" "members s' = members s"
    using run_fixed [of rs s w] by simp_all
next
  assume r: "run rs0 (construct c) w0 = (t, u)" and g: "getArea t u = (a, t1, u1)"
    and r': "run rs t1 u1 = (t2, u2)"
  have "a = calculateArea t"
    using reachable_values(1) [of rs0 c w0 u] run_calculate(1) [of rs0 "construct c" w0] r g
    by simp
  with getArea_stores [OF g] have t1: "cached_area t1 = a" "cached_area t1 = calculateArea t1"
    by simp_all
  show "cached_area t1 = a" by fact
  show "cached_area t2 = a"
    using area_kept_run [OF t1(2), of rs u1] r' t1(1) by simp
next
  assume r: "run rs0 (construct c) w0 = (t, u)" and g: "getPerimeter t u = (p, t1, u1)"
    and r': "run rs t1 u1 = (t2, u2)"
  have "p = calculatePerimeter t"
    using reachable_values(2) [of rs0 c w0 u] run_calculate(2) [of rs0 "construct c" w0] r g
    by simp
  with getPerimeter_stores [OF g]
  have t1: "cached_perimeter t1 = p" "cached_perimeter t1 = calculatePerimeter t1"
    by simp_all
  show "cached_perimeter t1 = p" by fact
  show "cached_perimeter t2 = p"
    using perimeter_kept_run [OF t1(2), of rs u1] r' t1(1) by simp
qed

text \<open>
  Claim C4 at \<open>Circle(4.0)\<close> after one \<open>displayInfo\<close>, followed by \<open>getArea\<close>,
  \<open>getPerimeter\<close> and \<open>displayInfo\<close>.
\<close>

theorem cache_stable_witness:
  "cached_area (fst (run demo_requests demo_shape demo_world)) = cached_area demo_shape \<and>
   cached_perimeter (fst (run demo_requests demo_shape demo_world)) =
     cached_perimeter demo_shape \<and>
   name (fst (run demo_requests demo_shape demo_world)) = name demo_shape \<and>
   members (fst (run demo_requests demo_shape demo_world)) = members demo_shape \<and>
   cached_area (fst (run demo_requests (fst (snd (getArea demo_shape demo_world)))
     (snd (snd (getArea demo_shape demo_world))))) = fst (getArea demo_shape demo_world) \<and>
   cached_perimeter (fst (run demo_requests (fst (snd (getPerimeter demo_shape demo_world)))
     (snd (snd (getPerimeter demo_shape demo_world))))) =
     fst (getPerimeter demo_shape demo_world)"
proof -
  define s' where "s' = fst (run demo_requests demo_shape demo_world)"
  define w' where "w' = snd (run demo_requests demo_shape demo_world)"
  define a where "a = fst (getArea demo_shape demo_world)"
  define t1 where "t1 = fst (snd (getArea demo_shape demo_world))"
  define u1 where "u1 = snd (snd (getArea demo_shape demo_world))"
  define p where "p = fst (getPerimeter demo_shape demo_world)"
  define t1' where "t1' = fst (snd (getPerimeter demo_shape demo_world))"
  define u1' where "u1' = snd (snd (getPerimeter demo_shape demo_world))"
  have r: "run demo_requests demo_shape demo_world = (s', w')"
    by (simp add: s'_def w'_def)
  have ga: "getArea demo_shape demo_world = (a, t1, u1)"
    by (simp add: a_def t1_def u1_def)
  have gp: "getPerimeter demo_shape demo_world = (p, t1', u1')"
    by (simp add: p_def t1'_def u1'_def)
  have ra: "run demo_requests t1 u1 = (fst (run demo_requests t1 u1), snd (run demo_requests t1 u1))"
    by simp
  have rp: "run demo_requests t1' u1' =
      (fst (run demo_requests t1' u1'), snd (run demo_requests t1' u1'))"
    by simp
  from cache_stable [of demo_shape demo_requests demo_world s' w' "[DisplayInfo]" demo_ctor
      world_init demo_shape demo_world a t1 u1 "fst (run demo_requests t1 u1)"
      "snd (run demo_requests t1 u1)"]
    cache_stable [of demo_shape demo_requests demo_world s' w' "[DisplayInfo]" demo_ctor
      world_init demo_shape demo_world _ t1' u1' "fst (run demo_requests t1' u1')"
      "snd (run demo_requests t1' u1')" p]
    demo_area_set demo_perimeter_set demo_run r ga gp ra rp
  show ?thesis
    unfolding s'_def [symmetric] a_def [symmetric] t1_def [symmetric] u1_def [symmetric]
      p_def [symmetric] t1'_def [symmetric] u1'_def [symmetric]
    by blast
qed

text \<open>
  Claim C9. A call of \<open>getArea\<close> leaves the object as it was except for \<open>cached_area\<close>,
  which holds the returned value: the name, the members (with \<open>radius_squared\<close> and
  \<open>semi_perimeter\<close> among them) and \<open>cached_perimeter\<close> are the same, and nothing is
  written to \<open>cout\<close>. \<open>getPerimeter\<close> likewise, with the two caches exchanged.
\<close>

theorem accessors_frame:
  "(getArea s w = (a, s', w') \<longrightarrow>
      name s' = name s \<and> members s' = members s \<and>
      cached_perimeter s' = cached_perimeter s \<and> s' = s\<lparr>cached_area := a\<rparr> \<and>
      cout w' = cout w) \<and>
   (getPerimeter s w = (p, s', w') \<longrightarrow>
      name s' = name s \<and> members s' = members s \<and>
      cached_area s' = cached_area s \<and> s' = s\<lparr>cached_perimeter := p\<rparr> \<and>
      cout w' = cout w)"
proof -
  have area: "name s' = name s \<and> members s' = members s \<and>
      cached_perimeter s' = cached_perimeter s \<and> s' = s\<lparr>cached_area := a\<rparr> \<and>
      cout w' = cout w"
    if g: "getArea s w = (a, s', w')"
  proof (cases "flt (cached_area s) zero")
    case True
    with g have "a = calculateArea s" "s' = s\<lparr>cached_area := calculateArea s\<rparr>"
      "w' = called CalculateArea w"
      by (auto simp: getArea_def Let_def)
    then show ?thesis by simp
  next
    case False
    with g have "a = cached_area s" "s' = s" "w' = w"
      by (auto simp: getArea_def)
    then show ?thesis by simp
  qed
  have perimeter: "name s' = name s \<and> members s' = members s \<and>
      cached_area s' = cached_area s \<and> s' = s\<lparr>cached_perimeter := p\<rparr> \<and>
      cout w' = cout w"
    if g: "getPerimeter s w = (p, s', w')"
  proof (cases "flt (cached_perimeter s) zero")
    case True
    with g have "p = calculatePerimeter s" "s' = s\<lparr>cached_perimeter := calculatePerimeter s\<rparr>"
      "w' = called CalculatePerimeter w"
      by (auto simp: getPerimeter_def Let_def)
    then show ?thesis by simp
  next
    case False
    with g have "p = cached_perimeter s" "s' = s" "w' = w"
      by (auto simp: getPerimeter_def)
    then show ?thesis by simp
  qed
  from area perimeter show ?thesis by blast
qed

text \<open>
  Claim C9 at a fresh \<open>Circle(4.0)\<close>, where each accessor writes its cache.
\<close>

theorem accessors_frame_witness:
  "name (fst (snd (getArea (construct demo_ctor) world_init))) = name (construct demo_ctor) \<and>
   members (fst (snd (getArea (construct demo_ctor) world_init))) =
     members (construct demo_ctor) \<and>
   cached_perimeter (fst (snd (getArea (construct demo_ctor) world_init))) =
     cached_perimeter (construct demo_ctor) \<and>
   fst (snd (getArea (construct demo_ctor) world_init)) =
     (construct demo_ctor)\<lparr>cached_area := fst (getArea (construct demo_ctor) world_init)\<rparr> \<and>
   cout (snd (snd (getArea (construct demo_ctor) world_init))) = cout world_init \<and>
   name (fst (snd (getPerimeter (construct demo_ctor) world_init))) =
     name (construct demo_ctor) \<and>
   members (fst (snd (getPerimeter (construct demo_ctor) world_init))) =
     members (construct demo_ctor) \<and>
   cached_area (fst (snd (getPerimeter (construct demo_ctor) world_init))) =
     cached_area (construct demo_ctor) \<and>
   fst (snd (getPerimeter (construct demo_ctor) world_init)) =
     (construct demo_ctor)
       \<lparr>cached_perimeter := fst (getPerimeter (construct demo_ctor) world_init)\<rparr> \<and>
   cout (snd (snd (getPerimeter (construct demo_ctor) world_init))) = cout world_init"
proof -
  have ga: "getArea (construct demo_ctor) world_init =
      (fst (getArea (construct demo_ctor) world_init),
       fst (snd (getArea (construct demo_ctor) world_init)),
       snd (snd (getArea (construct demo_ctor) world_init)))"
    by simp
  have gp: "getPerimeter (construct demo_ctor) world_init =
      (fst (getPerimeter (construct demo_ctor) world_init),
       fst (snd (getPerimeter (construct demo_ctor) world_init)),
       snd (snd (getPerimeter (construct demo_ctor) world_init)))"
    by simp
  from accessors_frame [of "construct demo_ctor" world_init
      "fst (getArea (construct demo_ctor) world_init)"
      "fst (snd (getArea (construct demo_ctor) world_init))"
      "snd (snd (getArea (construct demo_ctor) world_init))"] ga
    accessors_frame [of "construct demo_ctor" world_init _
      "fst (snd (getPerimeter (construct demo_ctor) world_init))"
      "snd (snd (getPerimeter (construct demo_ctor) world_init))"
      "fst (getPerimeter (construct demo_ctor) world_init)"] gp
  show ?thesis by blast
qed

subsection \<open>Aggregate statistics\<close>

lemma fst_getArea:
  "fst (getArea s w) = (if flt (cached_area s) zero then calculateArea s else cached_area s)"
  by (simp add: getArea_def Let_def)

lemma fst_getPerimeter:
  "fst (getPerimeter s w) =
     (if flt (cached_perimeter s) zero then calculatePerimeter s else cached_perimeter s)"
  by (simp add: getPerimeter_def Let_def)

lemma getPerimeter_after_getArea:
  "fst (getPerimeter (fst (snd (getArea s w))) w1) = fst (getPerimeter s w2)"
  by (simp add: fst_getPerimeter) (simp add: getArea_def calculatePerimeter_def Let_def)

lemma stats_loop_sums:
  "total_area (fst (stats_loop shapes st w)) =
     foldl fadd (total_area st) (map (\<lambda>s. fst (getArea s u)) shapes) \<and>
   total_perimeter (fst (stats_loop shapes st w)) =
     foldl fadd (total_perimeter st) (map (\<lambda>s. fst (getPerimeter s u)) shapes) \<and>
   count (fst (stats_loop shapes st w)) = count st"
proof (induction shapes arbitrary: st w)
  case Nil
  then show ?case by simp
next
  case (Cons s shapes)
  have a: "fst (getArea s w) = fst (getArea s u)"
    by (simp add: fst_getArea)
  have p: "fst (getPerimeter (fst (snd (getArea s w))) (snd (snd (getArea s w)))) =
      fst (getPerimeter s u)"
    by (rule getPerimeter_after_getArea)
  show ?case
    by (simp add: split_beta Let_def Cons.IH a p)
qed

text \<open>
  Claim C3. \<open>calculateShapeStats\<close> returns the sum of the values \<open>getArea\<close> gives for
  the shapes, added in order from \<open>0.0\<close>, the like sum for \<open>getPerimeter\<close>, and the number
  of shapes. For the five shapes of \<open>main\<close> the total area is
  \<open>15 + PI * 16 + 6 + 15 + PI * 6.25\<close> in double arithmetic, the double
  \<open>7452080727353179 * 2^-46\<close>, which is 105.90 to two decimals, and the count is 5.
\<close>

theorem calculateShapeStats_sums:
  "total_area (fst (calculateShapeStats shapes w)) =
     foldl fadd zero (map (\<lambda>s. fst (getArea s w)) shapes) \<and>
   total_perimeter (fst (calculateShapeStats shapes w)) =
     foldl fadd zero (map (\<lambda>s. fst (getPerimeter s w)) shapes) \<and>
   count (fst (calculateShapeStats shapes w)) = length shapes \<and>
   total_area (fst (calculateShapeStats main_shapes world_init)) =
     fadd (fadd (fadd (fadd (fadd zero (literal 150 1)) (fmul PI (literal 160 1)))
       (literal 60 1)) (literal 150 1)) (fmul PI (literal 625 2)) \<and>
   total_area (fst (calculateShapeStats main_shapes world_init)) =
     Finite False 7452080727353179 (- 46) \<and>
   \<bar>valof (Finite False 7452080727353179 (- 46)) - 105.90\<bar> < 0.005 \<and>
   count (fst (calculateShapeStats main_shapes world_init)) = 5"
proof (intro conjI)
  note sums = stats_loop_sums [of shapes "ShapeStats_init\<lparr>count := length shapes\<rparr>" w w]
  show "total_area (fst (calculateShapeStats shapes w)) =
      foldl fadd zero (map (\<lambda>s. fst (getArea s w)) shapes)"
    using sums by (simp add: calculateShapeStats_def ShapeStats_init_def)
  show "total_perimeter (fst (calculateShapeStats shapes w)) =
      foldl fadd zero (map (\<lambda>s. fst (getPerimeter s w)) shapes)"
    using sums by (simp add: calculateShapeStats_def ShapeStats_init_def)
  show "count (fst (calculateShapeStats shapes w)) = length shapes"
    using sums by (simp add: calculateShapeStats_def)
  show "total_area (fst (calculateShapeStats main_shapes world_init)) =
      Finite False 7452080727353179 (- 46)"
    by code_simp
  show "total_area (fst (calculateShapeStats main_shapes world_init)) =
      fadd (fadd (fadd (fadd (fadd zero (literal 150 1)) (fmul PI (literal 160 1)))
        (literal 60 1)) (literal 150 1)) (fmul PI (literal 625 2))"
    by code_simp
  show "\<bar>valof (Finite False 7452080727353179 (- 46)) - 105.90\<bar> < 0.005"
    by (simp add: power_int_minus field_simps)
  have "count (fst (calculateShapeStats main_shapes world_init)) = length main_shapes"
    using stats_loop_sums [of main_shapes "ShapeStats_init\<lparr>count := length main_shapes\<rparr>"
        world_init world_init]
    by (simp add: calculateShapeStats_def)
  also have "\<dots> = 5"
    by (simp add: main_shapes_def)
  finally show "count (fst (calculateShapeStats main_shapes world_init)) = 5" .
qed

end
